theory Spec2Isabelle
  imports Main
begin

section \<open>Errors, API responses and the interpreter state\<close>

text \<open>
  The wrappers raise and propagate Python exceptions.  Every exception kind that the
  two source files name, or that their expressions can raise, is a constructor.
\<close>

datatype error =
    TimeoutExpiredError
  | ProtocolError
  | NotFoundError
  | ApiException
  | AttributeError
  | TypeError
  | KeyError
  | IndexError
  | ResourceNotFoundError

text \<open>
  A request to the cluster either answers or fails in the client library.  The client
  library does not know \<open>TimeoutExpiredError\<close>, which belongs to the sampler, so the
  failures of a request are a type of their own.
\<close>

datatype api_fault = ProtocolFault | NotFoundFault | ServerFault

fun raise_fault :: "api_fault \<Rightarrow> error" where
  "raise_fault ProtocolFault = ProtocolError"
| "raise_fault NotFoundFault = NotFoundError"
| "raise_fault ServerFault = ApiException"

text \<open>
  \<open>self.instance\<close> is a property of the base class: each access is one GET.  The
  answer is an object whose \<open>status\<close> attribute is \<open>None\<close> when the cluster has not
  populated it; attribute and item access on the answer yield \<open>None\<close> for a missing key.
\<close>

record 'st resource_instance =
  status :: "'st option"

text \<open>The fields that \<open>__init__\<close> stores on the wrapper objects.\<close>

record resource =
  name :: "string option"
  namespace :: "string option"

record machine_set = resource +
  replicas :: int
  cluster_name :: "string option"
  machine_role :: string
  machine_type :: string
  provider_spec :: "(string \<times> string) list"

text \<open>One record per \<open>LOGGER\<close> call of the modelled methods, with the values it formats.\<close>

datatype log_record =
    ReplicasNotReady "string option" "int option" "int option"
  | WaitForStatus "string option" "bool option"
  | CheckReady "string option"

record 'o pystate =
  this :: 'o
  logged :: "log_record list"

text \<open>Python truthiness of the values the loops test.\<close>

fun truthy_int :: "int option \<Rightarrow> bool" where
  "truthy_int None = False"
| "truthy_int (Some n) = (n \<noteq> 0)"

fun truthy_str :: "string option \<Rightarrow> bool" where
  "truthy_str None = False"
| "truthy_str (Some t) = (t \<noteq> [])"


section \<open>The sampler\<close>

text \<open>
  Modelled from the spec: the class \<open>TimeoutSampler\<close> and its \<open>TimeoutExpiredError\<close>
  live in the \<open>utils\<close> module, which is not among the source files.  A \<open>sample_spec\<close>
  carries the timeout, the interval and the set of retryable error kinds; the probe is
  passed next to it, as the outcome of its \<open>k\<close>-th invocation.
\<close>

record sample_spec =
  timeout :: nat
  interval :: nat
  retryable_errors :: "error set"

text \<open>
  Modelled from the spec: the loop state a sampler owns.  \<open>probes\<close> counts the
  invocations of the probe, \<open>yields\<close> the values handed to the consumer, and
  \<open>elapsed\<close> is the time since the first activation, in seconds.
\<close>

record sampler_state =
  probes :: nat
  yields :: nat
  elapsed :: nat

text \<open>
  What the body of the consuming \<open>for\<close> loop does with one value: fall through to the
  next sample, \<open>return\<close>, or raise.
\<close>

datatype 'r ctl = Continue | Return 'r | Raise error

text \<open>
  Modelled from the spec: how one round of the sampler ends.  The loop stops, with an
  error or with the value the consumer returns, or it goes round again.
\<close>

datatype 'r verdict = Stop "error + 'r" | Again

text \<open>
  Modelled from the spec: step (d) and (e) of the sampler.  When the elapsed time has
  reached the timeout the sequence ends with \<open>TimeoutExpiredError\<close>; otherwise the
  sampler sleeps for the interval and goes round again.
\<close>

definition deadline_check ::
  "sample_spec \<Rightarrow> sampler_state \<Rightarrow> 's \<Rightarrow> 'r verdict \<times> sampler_state \<times> 's" where
  "deadline_check sp c s =
     (if timeout sp \<le> elapsed c then (Stop (Inl TimeoutExpiredError), c, s)
      else (Again, c\<lparr>elapsed := elapsed c + interval sp\<rparr>, s))"

text \<open>
  Modelled from the spec: one round of the sampler, steps (a) to (e).  The probe is
  invoked; a retryable error produces no value; any other error is propagated; a value
  is yielded to the consumer's loop body, which may stop the loop; then the deadline
  is checked.  \<open>cost k\<close> is the time the \<open>k\<close>-th probe and the handling of its value take.
\<close>

definition sampler_step ::
  "sample_spec \<Rightarrow> (nat \<Rightarrow> 's \<Rightarrow> (error + 'a) \<times> 's) \<Rightarrow> (nat \<Rightarrow> 'a \<Rightarrow> 's \<Rightarrow> 'r ctl \<times> 's)
     \<Rightarrow> (nat \<Rightarrow> nat) \<Rightarrow> sampler_state \<Rightarrow> 's \<Rightarrow> 'r verdict \<times> sampler_state \<times> 's" where
  "sampler_step sp probe body cost c s =
     (let k = probes c;
          c1 = c\<lparr>probes := k + 1, elapsed := elapsed c + cost k\<rparr>
      in case probe k s of
           (Inl e, s1) \<Rightarrow>
             if e \<in> retryable_errors sp then deadline_check sp c1 s1
             else (Stop (Inl e), c1, s1)
         | (Inr v, s1) \<Rightarrow>
             (let c2 = c1\<lparr>yields := yields c1 + 1\<rparr>
              in case body k v s1 of
                   (Return r, s2) \<Rightarrow> (Stop (Inr r), c2, s2)
                 | (Raise e, s2) \<Rightarrow> (Stop (Inl e), c2, s2)
                 | (Continue, s2) \<Rightarrow> deadline_check sp c2 s2))"

text \<open>
  Modelled from the spec: the sampler consumed by a \<open>for\<close> loop.  The loop need not end
  (interval 0 and probes that take no time), so the result is an option and \<open>None\<close>
  stands for a wait that never returns.
\<close>

partial_function (option) sampler_loop ::
  "sample_spec \<Rightarrow> (nat \<Rightarrow> 's \<Rightarrow> (error + 'a) \<times> 's) \<Rightarrow> (nat \<Rightarrow> 'a \<Rightarrow> 's \<Rightarrow> 'r ctl \<times> 's)
     \<Rightarrow> (nat \<Rightarrow> nat) \<Rightarrow> sampler_state \<Rightarrow> 's
     \<Rightarrow> ((error + 'r) \<times> sampler_state \<times> 's) option" where
  "sampler_loop sp probe body cost c s =
     (case sampler_step sp probe body cost c s of
        (Stop r, c', s') \<Rightarrow> Some (r, c', s')
      | (Again, c', s') \<Rightarrow> sampler_loop sp probe body cost c' s')"

declare sampler_loop.simps [code]

text \<open>
  Modelled from the spec: every wait builds its sampler afresh, with the start
  timestamp taken at the first activation.
\<close>

definition fresh_sampler :: sampler_state where
  "fresh_sampler = \<lparr>probes = 0, yields = 0, elapsed = 0\<rparr>"

definition sampler_run ::
  "sample_spec \<Rightarrow> (nat \<Rightarrow> 's \<Rightarrow> (error + 'a) \<times> 's) \<Rightarrow> (nat \<Rightarrow> 'a \<Rightarrow> 's \<Rightarrow> 'r ctl \<times> 's)
     \<Rightarrow> (nat \<Rightarrow> nat) \<Rightarrow> 's \<Rightarrow> ((error + 'r) \<times> sampler_state \<times> 's) option" where
  "sampler_run sp probe body cost s = sampler_loop sp probe body cost fresh_sampler s"


text \<open>
  Modelled from the spec: the sampler's clock.  \<open>round_start cost sleep k\<close> is the
  elapsed time at which round \<open>k\<close> begins when every earlier round went on to sleep;
  the deadline check of round \<open>k\<close> then sees \<open>round_start cost sleep k + cost k\<close>.
\<close>

fun round_start :: "(nat \<Rightarrow> nat) \<Rightarrow> nat \<Rightarrow> nat \<Rightarrow> nat" where
  "round_start cost sleep 0 = 0"
| "round_start cost sleep (Suc k) = round_start cost sleep k + cost k + sleep"


section \<open>\<open>machine_set.py\<close>\<close>

record ms_status =
  availableReplicas :: "int option"
  readyReplicas :: "int option"
  status_replicas :: "int option"

text \<open>
  The cluster as \<open>wait_for_replicas\<close> meets it: the answer to the GET behind the probe
  of round \<open>k\<close>, the answer to the GET behind \<open>self.desired_replicas\<close> in the body of
  round \<open>k\<close>, the answers to the two GETs of the log message, and the time round \<open>k\<close>
  takes.
\<close>

record ms_world =
  probe_get :: "nat \<Rightarrow> api_fault + ms_status resource_instance"
  desired_get :: "nat \<Rightarrow> api_fault + ms_status resource_instance"
  report_ready_get :: "api_fault + ms_status resource_instance"
  report_desired_get :: "api_fault + ms_status resource_instance"
  ms_cost :: "nat \<Rightarrow> nat"

text \<open>\<open>self.instance.status.<field>\<close>: the GET may fail, and \<open>None\<close> has no attributes.\<close>

definition status_attr ::
  "('st \<Rightarrow> 'v) \<Rightarrow> api_fault + 'st resource_instance \<Rightarrow> error + 'v" where
  "status_attr field got =
     (case got of
        Inl f \<Rightarrow> Inl (raise_fault f)
      | Inr inst \<Rightarrow>
          (case status inst of
             None \<Rightarrow> Inl AttributeError
           | Some st \<Rightarrow> Inr (field st)))"

definition available_replicas :: "api_fault + ms_status resource_instance \<Rightarrow> error + int option" where
  "available_replicas got = status_attr availableReplicas got"

definition ready_replicas :: "api_fault + ms_status resource_instance \<Rightarrow> error + int option" where
  "ready_replicas got = status_attr readyReplicas got"

definition desired_replicas :: "api_fault + ms_status resource_instance \<Rightarrow> error + int option" where
  "desired_replicas got = status_attr status_replicas got"

text \<open>The probe \<open>lambda: self.ready_replicas\<close>.\<close>

definition replicas_probe ::
  "ms_world \<Rightarrow> nat \<Rightarrow> machine_set pystate \<Rightarrow> (error + int option) \<times> machine_set pystate" where
  "replicas_probe w k s = (ready_replicas (probe_get w k), s)"

text \<open>The loop body: \<open>if ready_replicas and ready_replicas == self.desired_replicas: return True\<close>.\<close>

definition replicas_body ::
  "ms_world \<Rightarrow> nat \<Rightarrow> int option \<Rightarrow> machine_set pystate \<Rightarrow> bool ctl \<times> machine_set pystate" where
  "replicas_body w k ready_replicas' s =
     (if truthy_int ready_replicas' then
        (case desired_replicas (desired_get w k) of
           Inl e \<Rightarrow> (Raise e, s)
         | Inr d \<Rightarrow> if ready_replicas' = d then (Return True, s) else (Continue, s))
      else (Continue, s))"

text \<open>
  The \<open>except TimeoutExpiredError\<close> clause: the message reads \<open>self.name\<close>, then
  \<open>self.ready_replicas\<close>, then \<open>self.desired_replicas\<close>; then \<open>return False\<close>.
\<close>

definition replicas_timed_out ::
  "ms_world \<Rightarrow> sampler_state \<Rightarrow> machine_set pystate
     \<Rightarrow> (error + bool) \<times> sampler_state \<times> machine_set pystate" where
  "replicas_timed_out w c s =
     (case ready_replicas (report_ready_get w) of
        Inl e \<Rightarrow> (Inl e, c, s)
      | Inr r \<Rightarrow>
          (case desired_replicas (report_desired_get w) of
             Inl e \<Rightarrow> (Inl e, c, s)
           | Inr d \<Rightarrow>
               (Inr False, c, s\<lparr>logged := logged s @ [ReplicasNotReady (name (this s)) r d]\<rparr>)))"

text \<open>
  \<open>MachineSet.wait_for_replicas\<close>.  The sampler is built without an \<open>exceptions\<close>
  argument.  Which error kinds a sampler built so retries is decided in the \<open>utils\<close>
  module, which is not among the source files, so that set is the parameter
  \<open>default_exceptions\<close>.
\<close>

definition wait_for_replicas ::
  "error set \<Rightarrow> ms_world \<Rightarrow> nat \<Rightarrow> nat \<Rightarrow> machine_set pystate
     \<Rightarrow> ((error + bool) \<times> sampler_state \<times> machine_set pystate) option" where
  "wait_for_replicas default_exceptions w tmo sleep s =
     (case sampler_run
             \<lparr>timeout = tmo, interval = sleep, retryable_errors = default_exceptions\<rparr>
             (replicas_probe w) (replicas_body w) (ms_cost w) s of
        None \<Rightarrow> None
      | Some (r, c, s1) \<Rightarrow>
          if r = Inl TimeoutExpiredError then Some (replicas_timed_out w c s1)
          else Some (r, c, s1))"

text \<open>
  Round \<open>k\<close> of \<open>wait_for_replicas\<close> matches when the sampled ready count is non-zero
  and equal to the desired count read in the loop body.
\<close>

definition replicas_match :: "ms_world \<Rightarrow> nat \<Rightarrow> bool" where
  "replicas_match w k =
     (case ready_replicas (probe_get w k) of
        Inl _ \<Rightarrow> False
      | Inr v \<Rightarrow> truthy_int v \<and> desired_replicas (desired_get w k) = Inr v)"

text \<open>Round \<open>k\<close> is idle when it yields a value, raises nothing and does not match.\<close>

definition replicas_idle :: "ms_world \<Rightarrow> nat \<Rightarrow> bool" where
  "replicas_idle w k =
     (case ready_replicas (probe_get w k) of
        Inl _ \<Rightarrow> False
      | Inr v \<Rightarrow>
          (if truthy_int v then
             (case desired_replicas (desired_get w k) of Inl _ \<Rightarrow> False | Inr d \<Rightarrow> v \<noteq> d)
           else True))"


section \<open>\<open>virtual_machine.py\<close>: \<open>VirtualMachine\<close>\<close>

text \<open>
  The status of a virtual machine, as far as the wrapper reads it: its boolean entries
  by key.  Item access on the status yields \<open>None\<close> for a key that is not there.
\<close>

type_synonym vm_status = "string \<rightharpoonup> bool"

text \<open>
  The cluster as \<open>wait_for_status\<close> meets it: the items of the list request of round
  \<open>k\<close> (the probe), the answers to the two GETs that \<open>ready()\<close> issues in the body of
  round \<open>k\<close> (one for the test \<open>self.instance.status\<close>, one for the value
  \<open>self.instance.status["ready"]\<close>), and the time round \<open>k\<close> takes.
\<close>

record vm_world =
  list_get :: "nat \<Rightarrow> api_fault + vm_status resource_instance list"
  test_get :: "nat \<Rightarrow> api_fault + vm_status resource_instance"
  value_get :: "nat \<Rightarrow> api_fault + vm_status resource_instance"
  vm_cost :: "nat \<Rightarrow> nat"

text \<open>
  \<open>VirtualMachine.ready\<close> returns
  \<open>self.instance.status["ready"] if self.instance.status else None\<close>.  The test is
  evaluated first, on the first GET; the value is read from a second GET, and indexing
  \<open>None\<close> there is a \<open>TypeError\<close>.
\<close>

definition ready_value ::
  "api_fault + vm_status resource_instance \<Rightarrow> api_fault + vm_status resource_instance
     \<Rightarrow> error + bool option" where
  "ready_value got_test got_value =
     (case got_test of
        Inl f \<Rightarrow> Inl (raise_fault f)
      | Inr tested \<Rightarrow>
          (case status tested of
             None \<Rightarrow> Inr None
           | Some _ \<Rightarrow>
               (case got_value of
                  Inl f \<Rightarrow> Inl (raise_fault f)
                | Inr inst \<Rightarrow>
                    (case status inst of
                       None \<Rightarrow> Inl TypeError
                     | Some st \<Rightarrow> Inr (st ''ready'')))))"

text \<open>\<open>VirtualMachine.ready\<close>: one log line, then the value.\<close>

definition ready ::
  "api_fault + vm_status resource_instance \<Rightarrow> api_fault + vm_status resource_instance
     \<Rightarrow> resource pystate \<Rightarrow> (error + bool option) \<times> resource pystate" where
  "ready got_test got_value s =
     (ready_value got_test got_value,
      s\<lparr>logged := logged s @ [CheckReady (name (this s))]\<rparr>)"

text \<open>The probe \<open>self.api().get(field_selector=..., namespace=...)\<close>.\<close>

definition status_probe ::
  "vm_world \<Rightarrow> nat \<Rightarrow> resource pystate
     \<Rightarrow> (error + vm_status resource_instance list) \<times> resource pystate" where
  "status_probe w k s =
     (case list_get w k of
        Inl f \<Rightarrow> (Inl (raise_fault f), s)
      | Inr items \<Rightarrow> (Inr items, s))"

text \<open>The loop body: \<open>if sample.items: if self.ready() == status: return\<close>.\<close>

definition status_body ::
  "vm_world \<Rightarrow> bool option \<Rightarrow> nat \<Rightarrow> vm_status resource_instance list \<Rightarrow> resource pystate
     \<Rightarrow> unit ctl \<times> resource pystate" where
  "status_body w status' k items s =
     (if items \<noteq> [] then
        (case ready (test_get w k) (value_get w k) s of
           (Inl e, s1) \<Rightarrow> (Raise e, s1)
         | (Inr r, s1) \<Rightarrow> if r = status' then (Return (), s1) else (Continue, s1))
      else (Continue, s))"

text \<open>
  \<open>VirtualMachine.wait_for_status\<close>: one log line, then a sampler with
  \<open>sleep=1\<close> and \<open>exceptions=ProtocolError\<close>.
\<close>

definition wait_for_status ::
  "vm_world \<Rightarrow> bool option \<Rightarrow> nat \<Rightarrow> resource pystate
     \<Rightarrow> ((error + unit) \<times> sampler_state \<times> resource pystate) option" where
  "wait_for_status w status' tmo s =
     sampler_run \<lparr>timeout = tmo, interval = 1, retryable_errors = {ProtocolError}\<rparr>
       (status_probe w) (status_body w status') (vm_cost w)
       (s\<lparr>logged := logged s @ [WaitForStatus (name (this s)) status']\<rparr>)"


text \<open>
  Round \<open>k\<close> of \<open>wait_for_status\<close> matches when the sample has items and \<open>ready()\<close>
  equals the requested status.
\<close>

definition status_match :: "vm_world \<Rightarrow> bool option \<Rightarrow> nat \<Rightarrow> bool" where
  "status_match w status' k =
     (case list_get w k of
        Inl _ \<Rightarrow> False
      | Inr items \<Rightarrow>
          items \<noteq> [] \<and> ready_value (test_get w k) (value_get w k) = Inr status')"

text \<open>
  Round \<open>k\<close> is fatal when the probe raises an error other than \<open>ProtocolError\<close>, or
  the sample has items and \<open>ready()\<close> raises.
\<close>

definition status_fatal :: "vm_world \<Rightarrow> nat \<Rightarrow> bool" where
  "status_fatal w k =
     (case list_get w k of
        Inl f \<Rightarrow> f \<noteq> ProtocolFault
      | Inr items \<Rightarrow>
          items \<noteq> [] \<and>
          (case ready_value (test_get w k) (value_get w k) of Inl _ \<Rightarrow> True | Inr _ \<Rightarrow> False))"


section \<open>\<open>virtual_machine.py\<close>: \<open>VirtualMachineInstance\<close>\<close>

text \<open>
  A condition and an interface are objects of the cluster's answer: keys with JSON
  values, here strings or \<open>null\<close>.  \<open>item\<close> is item access on such an object, which
  yields \<open>None\<close> for a missing key as well as for \<open>null\<close>.
\<close>

type_synonym json_object = "string \<rightharpoonup> string option"

definition item :: "json_object \<Rightarrow> string \<Rightarrow> string option" where
  "item obj k = (case obj k of None \<Rightarrow> None | Some v \<Rightarrow> v)"

record migration_state =
  targetPod :: "string option"

record vmi_status =
  conditions :: "json_object list option"
  interfaces :: "json_object list option"
  migrationState :: "migration_state option"

text \<open>
  \<open>get_vmi_active_condition\<close>: the dict comprehension merges, in order, the items of
  every condition whose \<open>lastTransitionTime\<close> is truthy.  A missing status is an
  \<open>AttributeError\<close>, and iterating \<open>None\<close> a \<open>TypeError\<close>.
\<close>

definition get_vmi_active_condition ::
  "api_fault + vmi_status resource_instance \<Rightarrow> error + json_object" where
  "get_vmi_active_condition got =
     (case status_attr conditions got of
        Inl e \<Rightarrow> Inl e
      | Inr None \<Rightarrow> Inl TypeError
      | Inr (Some cs) \<Rightarrow>
          Inr (foldl (\<lambda>sample condition.
                        if truthy_str (item condition ''lastTransitionTime'')
                        then sample ++ condition else sample)
                 Map.empty cs))"

record vmi_world =
  condition_get :: "nat \<Rightarrow> api_fault + vmi_status resource_instance"
  vmi_cost :: "nat \<Rightarrow> nat"

definition condition_probe ::
  "vmi_world \<Rightarrow> nat \<Rightarrow> resource pystate \<Rightarrow> (error + json_object) \<times> resource pystate" where
  "condition_probe w k s = (get_vmi_active_condition (condition_get w k), s)"

text \<open>
  The first test of the loop body, \<open>pause and sample["reason"] == "PausedByUser"\<close>:
  \<open>sample\<close> is a plain dict, so indexing a missing key raises \<open>KeyError\<close>.
\<close>

definition paused_by_user :: "bool \<Rightarrow> json_object \<Rightarrow> error + bool" where
  "paused_by_user pause sample =
     (if pause then
        (case sample ''reason'' of
           None \<Rightarrow> Inl KeyError
         | Some reason \<Rightarrow> Inr (reason = Some ''PausedByUser''))
      else Inr False)"

text \<open>The second test, \<open>not (pause and sample.get("reason"))\<close>.\<close>

definition unpaused :: "bool \<Rightarrow> json_object \<Rightarrow> bool" where
  "unpaused pause sample = (\<not> (pause \<and> truthy_str (item sample ''reason'')))"

definition condition_body ::
  "bool \<Rightarrow> nat \<Rightarrow> json_object \<Rightarrow> resource pystate \<Rightarrow> unit ctl \<times> resource pystate" where
  "condition_body pause k sample s =
     (case paused_by_user pause sample of
        Inl e \<Rightarrow> (Raise e, s)
      | Inr True \<Rightarrow> (Return (), s)
      | Inr False \<Rightarrow> if unpaused pause sample then (Return (), s) else (Continue, s))"

text \<open>The samples on which the loop body returns: one of its two tests holds.\<close>

definition condition_accepted :: "bool \<Rightarrow> json_object \<Rightarrow> bool" where
  "condition_accepted pause sample =
     (paused_by_user pause sample = Inr True \<or>
      paused_by_user pause sample = Inr False \<and> unpaused pause sample)"

text \<open>
  \<open>VirtualMachineInstance.wait_for_vmi_condition_pause_status\<close>, with
  \<open>sleep=1\<close> and \<open>exceptions=(ProtocolError)\<close>.
\<close>

definition wait_for_vmi_condition_pause_status ::
  "vmi_world \<Rightarrow> bool \<Rightarrow> nat \<Rightarrow> resource pystate
     \<Rightarrow> ((error + unit) \<times> sampler_state \<times> resource pystate) option" where
  "wait_for_vmi_condition_pause_status w pause tmo s =
     sampler_run \<lparr>timeout = tmo, interval = 1, retryable_errors = {ProtocolError}\<rparr>
       (condition_probe w) (condition_body pause) (vmi_cost w) s"

text \<open>
  \<open>virt_launcher_pod\<close>, from the listed pods and the value of
  \<open>self.instance.status.migrationState\<close> on: both are fetched before the branch.
  A pod is a wrapper object with a name.
\<close>

definition virt_launcher_pod ::
  "resource list \<Rightarrow> migration_state option \<Rightarrow> error + resource" where
  "virt_launcher_pod pods migration_state' =
     (case migration_state' of
        Some ms \<Rightarrow>
          (case find (\<lambda>pod. targetPod ms = name pod) pods of
             Some pod \<Rightarrow> Inr pod
           | None \<Rightarrow> Inl ResourceNotFoundError)
      | None \<Rightarrow>
          (case pods of
             [] \<Rightarrow> Inl IndexError
           | pod # _ \<Rightarrow> Inr pod))"

text \<open>
  \<open>interface_ip\<close>, from the value of \<open>self.interfaces\<close> on; iterating \<open>None\<close> is a
  \<open>TypeError\<close>.
\<close>

definition interface_ip ::
  "json_object list option \<Rightarrow> string option \<Rightarrow> error + string option" where
  "interface_ip interfaces' interface =
     (case interfaces' of
        None \<Rightarrow> Inl TypeError
      | Some ifaces \<Rightarrow>
          (let iface_ip = [item iface ''ipAddress''.
                             iface \<leftarrow> ifaces, item iface ''interfaceName'' = interface]
           in Inr (case iface_ip of [] \<Rightarrow> None | ip # _ \<Rightarrow> ip)))"

section \<open>Example clusters\<close>

text \<open>Concrete objects and clusters on which the results below are evaluated.\<close>

abbreviation (input) ms_spec :: "error set \<Rightarrow> nat \<Rightarrow> nat \<Rightarrow> sample_spec" where
  "ms_spec retry tmo sleep \<equiv> \<lparr>timeout = tmo, interval = sleep, retryable_errors = retry\<rparr>"

definition workers :: "machine_set pystate" where
  "workers =
     \<lparr>this = \<lparr>name = Some ''workers'', namespace = Some ''openshift-machine-api'', replicas = 2,
              cluster_name = Some ''ocp'', machine_role = ''worker'', machine_type = ''worker'',
              provider_spec = []\<rparr>,
      logged = []\<rparr>"

definition ms_answer :: "int option \<Rightarrow> int option \<Rightarrow> api_fault + ms_status resource_instance" where
  "ms_answer r d =
     Inr \<lparr>status = Some \<lparr>availableReplicas = r, readyReplicas = r, status_replicas = d\<rparr>\<rparr>"

definition scaling_up :: ms_world where
  "scaling_up =
     \<lparr>probe_get = (\<lambda>k. ms_answer (Some (if k < 2 then int k else 2)) (Some 2)),
      desired_get = (\<lambda>k. ms_answer (Some (if k < 2 then int k else 2)) (Some 2)),
      report_ready_get = ms_answer (Some 2) (Some 2),
      report_desired_get = ms_answer (Some 2) (Some 2),
      ms_cost = (\<lambda>k. 0)\<rparr>"

definition stuck :: "api_fault + ms_status resource_instance \<Rightarrow> ms_world" where
  "stuck report =
     \<lparr>probe_get = (\<lambda>k. ms_answer (Some 1) (Some 2)),
      desired_get = (\<lambda>k. ms_answer (Some 1) (Some 2)),
      report_ready_get = report,
      report_desired_get = ms_answer (Some 1) (Some 2),
      ms_cost = (\<lambda>k. 0)\<rparr>"

text \<open>Stuck at one ready replica of two; the probe of round \<open>n\<close> fails in the API server.\<close>

definition failing_at :: "nat \<Rightarrow> ms_world" where
  "failing_at n =
     \<lparr>probe_get = (\<lambda>k. if k = n then Inl ServerFault else ms_answer (Some 1) (Some 2)),
      desired_get = (\<lambda>k. ms_answer (Some 1) (Some 2)),
      report_ready_get = ms_answer (Some 1) (Some 2),
      report_desired_get = ms_answer (Some 1) (Some 2),
      ms_cost = (\<lambda>k. 0)\<rparr>"

text \<open>The first probe fails in the API server; from then on both replicas are ready.\<close>

definition recovering :: ms_world where
  "recovering =
     \<lparr>probe_get = (\<lambda>k. if k = 0 then Inl ServerFault else ms_answer (Some 2) (Some 2)),
      desired_get = (\<lambda>k. ms_answer (Some 2) (Some 2)),
      report_ready_get = ms_answer (Some 2) (Some 2),
      report_desired_get = ms_answer (Some 2) (Some 2),
      ms_cost = (\<lambda>k. 0)\<rparr>"

abbreviation (input) vm_spec :: "nat \<Rightarrow> sample_spec" where
  "vm_spec tmo \<equiv> \<lparr>timeout = tmo, interval = 1, retryable_errors = {ProtocolError}\<rparr>"

definition fedora :: "resource pystate" where
  "fedora = \<lparr>this = \<lparr>name = Some ''vm-fedora'', namespace = Some ''default''\<rparr>, logged = []\<rparr>"

definition vm_answer :: "bool \<Rightarrow> api_fault + vm_status resource_instance" where
  "vm_answer r = Inr \<lparr>status = Some [''ready'' \<mapsto> r]\<rparr>"

definition no_status :: "api_fault + vm_status resource_instance" where
  "no_status = Inr \<lparr>status = None\<rparr>"

text \<open>Every list request breaks with a protocol error.\<close>

definition flaky :: vm_world where
  "flaky =
     \<lparr>list_get = (\<lambda>k. Inl ProtocolFault),
      test_get = (\<lambda>k. vm_answer True),
      value_get = (\<lambda>k. vm_answer True),
      vm_cost = (\<lambda>k. 0)\<rparr>"

text \<open>A machine that is ready for two rounds and has lost its status from the third on.\<close>

definition stopping :: vm_world where
  "stopping =
     \<lparr>list_get = (\<lambda>k. Inr [\<lparr>status = if k < 2 then Some [''ready'' \<mapsto> True] else None\<rparr>]),
      test_get = (\<lambda>k. if k < 2 then vm_answer True else no_status),
      value_get = (\<lambda>k. if k < 2 then vm_answer True else no_status),
      vm_cost = (\<lambda>k. 0)\<rparr>"

text \<open>The list request answers, and the GETs of \<open>ready()\<close> break with a protocol error.\<close>

definition broken :: vm_world where
  "broken =
     \<lparr>list_get = (\<lambda>k. Inr [\<lparr>status = None\<rparr>]),
      test_get = (\<lambda>k. Inl ProtocolFault),
      value_get = (\<lambda>k. Inl ProtocolFault),
      vm_cost = (\<lambda>k. 0)\<rparr>"

text \<open>A machine that has no status from the start.\<close>

definition halted :: vm_world where
  "halted =
     \<lparr>list_get = (\<lambda>k. Inr [\<lparr>status = None\<rparr>]),
      test_get = (\<lambda>k. no_status),
      value_get = (\<lambda>k. no_status),
      vm_cost = (\<lambda>k. 0)\<rparr>"

abbreviation (input) vmi_spec :: "nat \<Rightarrow> sample_spec" where
  "vmi_spec tmo \<equiv> \<lparr>timeout = tmo, interval = 1, retryable_errors = {ProtocolError}\<rparr>"

text \<open>
  A running instance: its one condition with a transition time is \<open>Ready\<close>, which
  carries no \<open>reason\<close>.
\<close>

definition running_conditions :: "json_object list" where
  "running_conditions =
     [[''type'' \<mapsto> Some ''LiveMigratable'', ''status'' \<mapsto> Some ''True'',
       ''lastProbeTime'' \<mapsto> None, ''lastTransitionTime'' \<mapsto> None],
      [''type'' \<mapsto> Some ''Ready'', ''status'' \<mapsto> Some ''True'',
       ''lastProbeTime'' \<mapsto> None, ''lastTransitionTime'' \<mapsto> Some ''2020-04-01T10:00:00Z'']]"

text \<open>A paused instance: the condition with a transition time says \<open>PausedByUser\<close>.\<close>

definition paused_conditions :: "json_object list" where
  "paused_conditions =
     [[''type'' \<mapsto> Some ''Ready'', ''status'' \<mapsto> Some ''True'',
       ''lastProbeTime'' \<mapsto> None, ''lastTransitionTime'' \<mapsto> None],
      [''type'' \<mapsto> Some ''Paused'', ''status'' \<mapsto> Some ''True'',
       ''reason'' \<mapsto> Some ''PausedByUser'', ''message'' \<mapsto> Some ''VMI was paused by user'',
       ''lastProbeTime'' \<mapsto> Some ''2020-04-01T10:05:00Z'',
       ''lastTransitionTime'' \<mapsto> Some ''2020-04-01T10:05:00Z'']]"

text \<open>An instance whose active condition carries a \<open>reason\<close> that is \<open>null\<close>.\<close>

definition null_reason_conditions :: "json_object list" where
  "null_reason_conditions =
     [[''type'' \<mapsto> Some ''Ready'', ''status'' \<mapsto> Some ''True'', ''reason'' \<mapsto> None,
       ''lastProbeTime'' \<mapsto> None, ''lastTransitionTime'' \<mapsto> Some ''2020-04-01T10:00:00Z'']]"

definition vmi_answer :: "json_object list \<Rightarrow> api_fault + vmi_status resource_instance" where
  "vmi_answer cs =
     Inr \<lparr>status = Some \<lparr>conditions = Some cs, interfaces = None, migrationState = None\<rparr>\<rparr>"

text \<open>The first request breaks with a protocol error; from then on the instance answers.\<close>

definition vmi_cluster :: "json_object list \<Rightarrow> vmi_world" where
  "vmi_cluster cs =
     \<lparr>condition_get = (\<lambda>k. if k = 0 then Inl ProtocolFault else vmi_answer cs),
      vmi_cost = (\<lambda>k. 0)\<rparr>"

definition fedora_vmi :: "resource pystate" where
  "fedora_vmi = \<lparr>this = \<lparr>name = Some ''vm-fedora'', namespace = Some ''default''\<rparr>, logged = []\<rparr>"

section \<open>Properties of the sampler loop\<close>

lemma sampler_loop_Stop:
  "sampler_step sp probe body cost c s = (Stop r, c', s') \<Longrightarrow>
   sampler_loop sp probe body cost c s = Some (r, c', s')"
  by (subst sampler_loop.simps) simp

lemma sampler_loop_Again:
  "sampler_step sp probe body cost c s = (Again, c', s') \<Longrightarrow>
   sampler_loop sp probe body cost c s = sampler_loop sp probe body cost c' s'"
  by (subst sampler_loop.simps) simp

lemma sampler_loop_induct [consumes 1, case_names Stop Again]:
  fixes probe :: "nat \<Rightarrow> 's \<Rightarrow> (error + 'a) \<times> 's"
    and body :: "nat \<Rightarrow> 'a \<Rightarrow> 's \<Rightarrow> 'r ctl \<times> 's"
  assumes run: "sampler_loop sp probe body cost c s = Some res"
    and stop: "\<And>c s r c' s'. sampler_step sp probe body cost c s = (Stop r, c', s') \<Longrightarrow> P c s (r, c', s')"
    and again: "\<And>c s c1 s1 res. sampler_step sp probe body cost c s = (Again, c1, s1) \<Longrightarrow>
                  sampler_loop sp probe body cost c1 s1 = Some res \<Longrightarrow> P c1 s1 res \<Longrightarrow> P c s res"
  shows "P c s res"
proof -
  let ?Q = "\<lambda>sp' probe' body' cost' c s res.
              sp' = sp \<and> probe' = probe \<and> body' = body \<and> cost' = cost \<longrightarrow>
              sampler_loop sp probe body cost c s = Some res \<and> P c s res"
  have "?Q sp probe body cost c s res"
  proof (rule sampler_loop.raw_induct [where P = ?Q, OF _ run], intro impI, elim conjE)
    fix loop :: "sample_spec \<Rightarrow> (nat \<Rightarrow> 's \<Rightarrow> (error + 'a) \<times> 's) \<Rightarrow> (nat \<Rightarrow> 'a \<Rightarrow> 's \<Rightarrow> 'r ctl \<times> 's)
                   \<Rightarrow> (nat \<Rightarrow> nat) \<Rightarrow> sampler_state \<Rightarrow> 's \<Rightarrow> ((error + 'r) \<times> sampler_state \<times> 's) option"
    fix sp' probe' body' cost' c s res
    assume ih: "\<And>sp' probe' body' cost' c s res. loop sp' probe' body' cost' c s = Some res \<Longrightarrow>
                  ?Q sp' probe' body' cost' c s res"
      and unfolded: "(case sampler_step sp' probe' body' cost' c s of
                        (Stop r, c', s') \<Rightarrow> Some (r, c', s')
                      | (Again, c', s') \<Rightarrow> loop sp' probe' body' cost' c' s') = Some res"
      and eqs: "sp' = sp" "probe' = probe" "body' = body" "cost' = cost"
    obtain v c1 s1 where step: "sampler_step sp probe body cost c s = (v, c1, s1)"
      by (cases "sampler_step sp probe body cost c s") auto
    show "sampler_loop sp probe body cost c s = Some res \<and> P c s res"
    proof (cases v)
      case (Stop r)
      with step unfolded eqs have "res = (r, c1, s1)" by simp
      with step Stop show ?thesis by (simp add: sampler_loop_Stop stop)
    next
      case Again
      with step unfolded eqs have "loop sp probe body cost c1 s1 = Some res" by simp
      from ih [OF this] have "sampler_loop sp probe body cost c1 s1 = Some res" "P c1 s1 res"
        by simp_all
      with step Again show ?thesis by (simp add: sampler_loop_Again again)
    qed
  qed
  then show ?thesis by simp
qed

lemma sampler_step_AgainD:
  assumes "sampler_step sp probe body cost c s = (Again, c', s')"
  shows "probes c' = probes c + 1"
    and "elapsed c' = elapsed c + cost (probes c) + interval sp"
    and "elapsed c + cost (probes c) < timeout sp"
    and "yields c \<le> yields c'"
  using assms
  by (auto simp: sampler_step_def deadline_check_def Let_def
           split: prod.splits sum.splits if_splits ctl.splits)

lemma sampler_step_StopD:
  assumes "sampler_step sp probe body cost c s = (Stop r, c', s')"
  shows "probes c' = probes c + 1"
    and "elapsed c' = elapsed c + cost (probes c)"
    and "yields c \<le> yields c'"
  using assms
  by (auto simp: sampler_step_def deadline_check_def Let_def
           split: prod.splits sum.splits if_splits ctl.splits)

lemma sampler_loop_terminates:
  assumes "0 < interval sp"
  shows "\<exists>res. sampler_loop sp probe body cost c s = Some res"
proof (induction "timeout sp - elapsed c" arbitrary: c s rule: less_induct)
  case less
  obtain v c1 s1 where step: "sampler_step sp probe body cost c s = (v, c1, s1)"
    by (cases "sampler_step sp probe body cost c s") auto
  show ?case
  proof (cases v)
    case (Stop r)
    with step show ?thesis by (auto simp: sampler_loop_Stop)
  next
    case Again
    with step have st: "sampler_step sp probe body cost c s = (Again, c1, s1)" by simp
    from sampler_step_AgainD(2,3) [OF st] assms
    have "timeout sp - elapsed c1 < timeout sp - elapsed c" by arith
    from less [OF this] show ?thesis by (simp add: sampler_loop_Again [OF st])
  qed
qed

lemma sampler_loop_rounds:
  fixes probe :: "nat \<Rightarrow> 's \<Rightarrow> (error + 'a) \<times> 's"
    and body :: "nat \<Rightarrow> 'a \<Rightarrow> 's \<Rightarrow> 'r ctl \<times> 's"
  assumes run: "sampler_loop sp probe body cost c s = Some (r, c', s')"
    and inv: "I s"
    and again: "\<And>c s c1 s1. sampler_step sp probe body cost c s = (Again, c1, s1) \<Longrightarrow> I s \<Longrightarrow>
                  A (probes c) \<and> I s1"
    and stop: "\<And>c s r c' s'. sampler_step sp probe body cost c s = (Stop r, c', s') \<Longrightarrow> I s \<Longrightarrow>
                  Z (probes c) r c' \<and> I s'"
  shows "probes c < probes c' \<and> (\<forall>k. probes c \<le> k \<and> Suc k < probes c' \<longrightarrow> A k) \<and>
         Z (probes c' - 1) r c' \<and> I s'"
  using run inv
proof (induction c s "(r, c', s')" rule: sampler_loop_induct)
  case (Stop c s)
  from stop [OF Stop(1,2)] sampler_step_StopD(1) [OF Stop(1)] show ?case
    by auto
next
  case (Again c s c1 s1)
  from again [OF Again(1,4)] have a: "A (probes c)" and i: "I s1" by simp_all
  have p: "probes c1 = Suc (probes c)"
    using sampler_step_AgainD(1) [OF Again(1)] by simp
  from Again(3) [OF i] have ih: "probes c1 < probes c'"
    "\<And>k. probes c1 \<le> k \<Longrightarrow> Suc k < probes c' \<Longrightarrow> A k"
    "Z (probes c' - 1) r c'" "I s'"
    by blast+
  have "A k" if "probes c \<le> k" "Suc k < probes c'" for k
  proof (cases "k = probes c")
    case True
    with a show ?thesis by simp
  next
    case False
    with that p have "probes c1 \<le> k" by simp
    from ih(2) [OF this that(2)] show ?thesis .
  qed
  with ih p show ?case by auto
qed

lemma sampler_loop_oblivious:
  fixes probe :: "nat \<Rightarrow> 's \<Rightarrow> (error + 'a) \<times> 's"
    and body :: "nat \<Rightarrow> 'a \<Rightarrow> 's \<Rightarrow> 'r ctl \<times> 's"
  assumes run: "sampler_loop sp probe body cost c s = Some (r, c', s')"
    and step: "\<And>c s v c1 s1 t. sampler_step sp probe body cost c s = (v, c1, s1) \<Longrightarrow>
                 \<exists>t1. sampler_step sp probe body cost c t = (v, c1, t1)"
  shows "\<exists>t'. sampler_loop sp probe body cost c t = Some (r, c', t')"
  using run
proof (induction c s "(r, c', s')" arbitrary: t rule: sampler_loop_induct)
  case (Stop c s)
  from step [OF Stop(1), of t] obtain t1
    where "sampler_step sp probe body cost c t = (Stop r, c', t1)" by blast
  then show ?case by (auto simp: sampler_loop_Stop)
next
  case (Again c s c1 s1)
  from step [OF Again(1), of t] obtain t1
    where st: "sampler_step sp probe body cost c t = (Again, c1, t1)" by blast
  from Again(3) [of t1] show ?case by (simp add: sampler_loop_Again [OF st])
qed

lemma only_retryable_run:
  fixes probe :: "nat \<Rightarrow> 's \<Rightarrow> (error + 'a) \<times> 's"
    and body :: "nat \<Rightarrow> 'a \<Rightarrow> 's \<Rightarrow> 'r ctl \<times> 's"
  assumes retry: "\<And>k s. I s \<Longrightarrow> \<exists>e s1. probe k s = (Inl e, s1) \<and> e \<in> retryable_errors sp \<and> I s1"
    and run: "sampler_loop sp probe body cost c s = Some (r, c', s')"
    and inv: "I s"
  shows "r = Inl TimeoutExpiredError \<and> yields c' = yields c \<and> timeout sp \<le> elapsed c' \<and> I s'"
proof -
  have step: "\<exists>s1. sampler_step sp probe body cost c s =
                 deadline_check sp (c\<lparr>probes := probes c + 1, elapsed := elapsed c + cost (probes c)\<rparr>) s1
               \<and> I s1" if "I s" for c s
    using retry [OF that, of "probes c"] by (auto simp: sampler_step_def Let_def)
  from run inv show ?thesis
  proof (induction c s "(r, c', s')" rule: sampler_loop_induct)
    case (Stop c s)
    with step [OF Stop(2), of c] show ?case
      by (auto simp: deadline_check_def split: if_splits)
  next
    case (Again c s c1 s1)
    with step [OF Again(4), of c] have "yields c1 = yields c" "I s1"
      by (auto simp: deadline_check_def split: if_splits)
    with Again(3) show ?case by simp
  qed
qed

lemma only_retryable_times_out:
  fixes probe :: "nat \<Rightarrow> 's \<Rightarrow> (error + 'a) \<times> 's"
    and body :: "nat \<Rightarrow> 'a \<Rightarrow> 's \<Rightarrow> 'r ctl \<times> 's"
  assumes retry: "\<And>k s. I s \<Longrightarrow> \<exists>e s1. probe k s = (Inl e, s1) \<and> e \<in> retryable_errors sp \<and> I s1"
    and sleep: "0 < interval sp"
    and inv: "I s"
  shows "\<exists>c' s'. sampler_loop sp probe body cost c s = Some (Inl TimeoutExpiredError, c', s') \<and>
                 yields c' = yields c \<and> timeout sp \<le> elapsed c' \<and> I s'"
proof -
  from sampler_loop_terminates [OF sleep] obtain r c' s'
    where run: "sampler_loop sp probe body cost c s = Some (r, c', s')"
    by (metis prod_cases3)
  from only_retryable_run [where I = I, OF retry run inv] run show ?thesis
    by blast
qed

section \<open>The rounds of \<open>wait_for_replicas\<close>\<close>

lemma status_attr_not_timeout: "status_attr field got \<noteq> Inl TimeoutExpiredError"
  by (cases got) (auto simp: status_attr_def split: option.splits api_fault.splits elim: raise_fault.elims)

lemma deadline_check_Stop:
  "deadline_check sp c s = (Stop r, c', s') \<longleftrightarrow>
     r = Inl TimeoutExpiredError \<and> timeout sp \<le> elapsed c \<and> c' = c \<and> s' = s"
  by (auto simp: deadline_check_def)

lemma deadline_check_Again:
  "deadline_check sp c s = (Again, c', s') \<longleftrightarrow>
     \<not> timeout sp \<le> elapsed c \<and> c' = c\<lparr>elapsed := elapsed c + interval sp\<rparr> \<and> s' = s"
  by (auto simp: deadline_check_def)

lemma replicas_step_cases:
  "sampler_step (ms_spec retry tmo sleep) (replicas_probe w) (replicas_body w) (ms_cost w) c s =
     (let c1 = c\<lparr>probes := probes c + 1, elapsed := elapsed c + ms_cost w (probes c)\<rparr>;
          c2 = c1\<lparr>yields := yields c + 1\<rparr>
      in case ready_replicas (probe_get w (probes c)) of
           Inl e \<Rightarrow>
             if e \<in> retry then deadline_check (ms_spec retry tmo sleep) c1 s
             else (Stop (Inl e), c1, s)
         | Inr v \<Rightarrow>
             if truthy_int v then
               (case desired_replicas (desired_get w (probes c)) of
                  Inl e \<Rightarrow> (Stop (Inl e), c2, s)
                | Inr d \<Rightarrow>
                    if v = d then (Stop (Inr True), c2, s)
                    else deadline_check (ms_spec retry tmo sleep) c2 s)
             else deadline_check (ms_spec retry tmo sleep) c2 s)"
  by (simp add: sampler_step_def Let_def replicas_probe_def replicas_body_def
           split: sum.splits)

lemma replicas_step_Again:
  assumes "sampler_step (ms_spec retry tmo sleep) (replicas_probe w) (replicas_body w) (ms_cost w)
             c s = (Again, c1, s1)"
  shows "s1 = s \<and> \<not> replicas_match w (probes c) \<and>
         (\<forall>e. ready_replicas (probe_get w (probes c)) = Inl e \<longrightarrow> e \<in> retry)"
proof (cases "ready_replicas (probe_get w (probes c))")
  case (Inl e)
  with assms [unfolded replicas_step_cases] show ?thesis
    by (auto simp: Let_def deadline_check_Again replicas_match_def split: if_splits)
next
  case v: (Inr v)
  show ?thesis
  proof (cases "desired_replicas (desired_get w (probes c))")
    case (Inl e)
    with v assms [unfolded replicas_step_cases] show ?thesis
      by (auto simp: Let_def deadline_check_Again replicas_match_def split: if_splits)
  next
    case (Inr d)
    with v assms [unfolded replicas_step_cases] show ?thesis
      by (auto simp: Let_def deadline_check_Again replicas_match_def split: if_splits)
  qed
qed

lemma replicas_step_Stop:
  assumes "sampler_step (ms_spec retry tmo sleep) (replicas_probe w) (replicas_body w) (ms_cost w)
             c s = (Stop r, c', s')"
  shows "s' = s \<and>
         (r = Inr True \<longleftrightarrow> replicas_match w (probes c)) \<and>
         r \<noteq> Inr False \<and>
         (r = Inl TimeoutExpiredError \<longrightarrow> tmo \<le> elapsed c') \<and>
         (\<forall>e. ready_replicas (probe_get w (probes c)) = Inl e \<and> e \<notin> retry \<longrightarrow> r = Inl e)"
proof (cases "ready_replicas (probe_get w (probes c))")
  case (Inl e)
  then have "e \<noteq> TimeoutExpiredError"
    using status_attr_not_timeout [of readyReplicas "probe_get w (probes c)"]
    by (auto simp: ready_replicas_def)
  with Inl assms [unfolded replicas_step_cases] show ?thesis
    by (auto simp: Let_def deadline_check_Stop replicas_match_def split: if_splits)
next
  case v: (Inr v)
  show ?thesis
  proof (cases "desired_replicas (desired_get w (probes c))")
    case (Inl e)
    then have "e \<noteq> TimeoutExpiredError"
      using status_attr_not_timeout [of status_replicas "desired_get w (probes c)"]
      by (auto simp: desired_replicas_def)
    with Inl v assms [unfolded replicas_step_cases] show ?thesis
      by (auto simp: Let_def deadline_check_Stop replicas_match_def split: if_splits)
  next
    case (Inr d)
    with v assms [unfolded replicas_step_cases] show ?thesis
      by (auto simp: Let_def deadline_check_Stop replicas_match_def split: if_splits)
  qed
qed

lemma replicas_loop_run:
  assumes run: "sampler_loop (ms_spec retry tmo sleep) (replicas_probe w) (replicas_body w)
                  (ms_cost w) c s = Some (r, c', s')"
  shows "probes c < probes c' \<and>
         (\<forall>k. probes c \<le> k \<and> Suc k < probes c' \<longrightarrow>
              \<not> replicas_match w k \<and>
              (\<forall>e. ready_replicas (probe_get w k) = Inl e \<longrightarrow> e \<in> retry)) \<and>
         ((r = Inr True \<longleftrightarrow> replicas_match w (probes c' - 1)) \<and>
          r \<noteq> Inr False \<and>
          (r = Inl TimeoutExpiredError \<longrightarrow> tmo \<le> elapsed c') \<and>
          (\<forall>e. ready_replicas (probe_get w (probes c' - 1)) = Inl e \<and> e \<notin> retry \<longrightarrow> r = Inl e)) \<and>
         s' = s"
proof (rule sampler_loop_rounds
    [OF run, where I = "\<lambda>x. x = s"
      and A = "\<lambda>k. \<not> replicas_match w k \<and>
                  (\<forall>e. ready_replicas (probe_get w k) = Inl e \<longrightarrow> e \<in> retry)"
      and Z = "\<lambda>k r c. (r = Inr True \<longleftrightarrow> replicas_match w k) \<and>
                  r \<noteq> Inr False \<and>
                  (r = Inl TimeoutExpiredError \<longrightarrow> tmo \<le> elapsed c) \<and>
                  (\<forall>e. ready_replicas (probe_get w k) = Inl e \<and> e \<notin> retry \<longrightarrow> r = Inl e)"])
  show "s = s" by simp
next
  fix c s0 c1 s1
  assume st: "sampler_step (ms_spec retry tmo sleep) (replicas_probe w) (replicas_body w)
                (ms_cost w) c s0 = (Again, c1, s1)" and s0: "s0 = s"
  from replicas_step_Again [OF st] s0
  show "(\<not> replicas_match w (probes c) \<and>
         (\<forall>e. ready_replicas (probe_get w (probes c)) = Inl e \<longrightarrow> e \<in> retry)) \<and> s1 = s"
    by blast
next
  fix c s0 r c' s'
  assume st: "sampler_step (ms_spec retry tmo sleep) (replicas_probe w) (replicas_body w)
                (ms_cost w) c s0 = (Stop r, c', s')" and s0: "s0 = s"
  from replicas_step_Stop [OF st] s0
  show "((r = Inr True \<longleftrightarrow> replicas_match w (probes c)) \<and>
         r \<noteq> Inr False \<and>
         (r = Inl TimeoutExpiredError \<longrightarrow> tmo \<le> elapsed c') \<and>
         (\<forall>e. ready_replicas (probe_get w (probes c)) = Inl e \<and> e \<notin> retry \<longrightarrow> r = Inl e)) \<and>
        s' = s"
    by blast
qed

lemma replicas_step_idle:
  assumes "replicas_idle w (probes c)"
  shows "sampler_step (ms_spec retry tmo sleep) (replicas_probe w) (replicas_body w) (ms_cost w)
           c s =
           (if tmo \<le> elapsed c + ms_cost w (probes c)
            then (Stop (Inl TimeoutExpiredError),
                  c\<lparr>probes := probes c + 1, elapsed := elapsed c + ms_cost w (probes c),
                    yields := yields c + 1\<rparr>, s)
            else (Again,
                  c\<lparr>probes := probes c + 1, elapsed := elapsed c + ms_cost w (probes c),
                    yields := yields c + 1,
                    elapsed := elapsed c + ms_cost w (probes c) + sleep\<rparr>, s))"
  using assms
  by (auto simp: sampler_step_def deadline_check_def Let_def replicas_probe_def replicas_body_def
                 replicas_idle_def split: sum.splits if_splits)

lemma replicas_step_match:
  assumes "replicas_match w (probes c)"
  shows "sampler_step (ms_spec retry tmo sleep) (replicas_probe w) (replicas_body w) (ms_cost w)
           c s =
           (Stop (Inr True),
            c\<lparr>probes := probes c + 1, elapsed := elapsed c + ms_cost w (probes c),
              yields := yields c + 1\<rparr>, s)"
  using assms
  by (auto simp: sampler_step_def deadline_check_def Let_def replicas_probe_def replicas_body_def
                 replicas_match_def split: sum.splits if_splits)

lemma replicas_loop_skip:
  assumes "\<forall>j<n. replicas_idle w j \<and> round_start (ms_cost w) sleep j + ms_cost w j < tmo"
  shows "sampler_loop (ms_spec retry tmo sleep) (replicas_probe w) (replicas_body w) (ms_cost w)
           fresh_sampler s =
         sampler_loop (ms_spec retry tmo sleep) (replicas_probe w) (replicas_body w) (ms_cost w)
           \<lparr>probes = n, yields = n, elapsed = round_start (ms_cost w) sleep n\<rparr> s"
  using assms
proof (induction n)
  case 0
  show ?case by (simp add: fresh_sampler_def)
next
  case (Suc n)
  let ?c = "\<lparr>probes = n, yields = n, elapsed = round_start (ms_cost w) sleep n\<rparr>"
  from Suc.prems have idle: "replicas_idle w (probes ?c)"
    by simp
  from Suc.prems have time: "\<not> tmo \<le> elapsed ?c + ms_cost w (probes ?c)"
    by (simp add: not_le)
  from Suc.prems have "\<forall>j<n. replicas_idle w j \<and> round_start (ms_cost w) sleep j + ms_cost w j < tmo"
    by simp
  note Suc.IH [OF this]
  also have "sampler_loop (ms_spec retry tmo sleep) (replicas_probe w) (replicas_body w)
               (ms_cost w) ?c s =
        sampler_loop (ms_spec retry tmo sleep) (replicas_probe w) (replicas_body w) (ms_cost w)
           \<lparr>probes = Suc n, yields = Suc n, elapsed = round_start (ms_cost w) sleep (Suc n)\<rparr> s"
  proof (rule sampler_loop_Again)
    show "sampler_step (ms_spec retry tmo sleep) (replicas_probe w) (replicas_body w) (ms_cost w)
            ?c s =
            (Again, \<lparr>probes = Suc n, yields = Suc n,
                      elapsed = round_start (ms_cost w) sleep (Suc n)\<rparr>, s)"
      using time by (simp add: replicas_step_idle [OF idle])
  qed
  finally show ?case .
qed

lemma replicas_idle_no_match: "replicas_idle w k \<Longrightarrow> \<not> replicas_match w k"
  by (auto simp: replicas_idle_def replicas_match_def split: sum.splits if_splits)

lemma wait_for_replicas_run:
  assumes "wait_for_replicas retry w tmo sleep s = Some (res, c, s')"
  shows "0 < probes c"
    and "res = Inr True \<longleftrightarrow> replicas_match w (probes c - 1)"
    and "\<forall>k. Suc k < probes c \<longrightarrow>
           \<not> replicas_match w k \<and> (\<forall>e. ready_replicas (probe_get w k) = Inl e \<longrightarrow> e \<in> retry)"
    and "res \<noteq> Inl TimeoutExpiredError"
    and "this s' = this s"
    and "\<forall>e. ready_replicas (probe_get w (probes c - 1)) = Inl e \<and> e \<notin> retry \<longrightarrow>
           res = Inl e \<and> s' = s"
proof -
  from assms obtain r s1 where
    run: "sampler_loop (ms_spec retry tmo sleep) (replicas_probe w) (replicas_body w) (ms_cost w)
            fresh_sampler s = Some (r, c, s1)"
    and res: "(res, c, s') = (if r = Inl TimeoutExpiredError then replicas_timed_out w c s1
                              else (r, c, s1))"
    by (auto simp: wait_for_replicas_def sampler_run_def replicas_timed_out_def
             split: option.splits if_splits sum.splits)
  have pf: "probes fresh_sampler = 0" by (simp add: fresh_sampler_def)
  from replicas_loop_run [OF run, unfolded pf]
  have inv: "0 < probes c"
    "\<forall>k. Suc k < probes c \<longrightarrow>
       \<not> replicas_match w k \<and> (\<forall>e. ready_replicas (probe_get w k) = Inl e \<longrightarrow> e \<in> retry)"
    "r = Inr True \<longleftrightarrow> replicas_match w (probes c - 1)"
    "r \<noteq> Inr False"
    "\<forall>e. ready_replicas (probe_get w (probes c - 1)) = Inl e \<and> e \<notin> retry \<longrightarrow> r = Inl e"
    "s1 = s"
    using zero_le by blast+
  have handler: "fst (replicas_timed_out w c s1) \<noteq> Inl TimeoutExpiredError"
    "fst (replicas_timed_out w c s1) \<noteq> Inr True"
    "this (snd (snd (replicas_timed_out w c s1))) = this s1"
    using status_attr_not_timeout [of readyReplicas "report_ready_get w"]
      status_attr_not_timeout [of status_replicas "report_desired_get w"]
    by (auto simp: replicas_timed_out_def ready_replicas_def desired_replicas_def split: sum.splits)
  from inv(1) show "0 < probes c" .
  show "res = Inr True \<longleftrightarrow> replicas_match w (probes c - 1)"
  proof (cases "r = Inl TimeoutExpiredError")
    case True
    with res have "res = fst (replicas_timed_out w c s1)" by (metis fst_conv)
    with handler(2) inv(3) True show ?thesis by auto
  next
    case False
    with res inv(3) show ?thesis by simp
  qed
  from inv(2) show "\<forall>k. Suc k < probes c \<longrightarrow>
           \<not> replicas_match w k \<and> (\<forall>e. ready_replicas (probe_get w k) = Inl e \<longrightarrow> e \<in> retry)" .
  show "res \<noteq> Inl TimeoutExpiredError"
  proof (cases "r = Inl TimeoutExpiredError")
    case True
    with res have "res = fst (replicas_timed_out w c s1)" by (metis fst_conv)
    with handler(1) show ?thesis by simp
  next
    case False
    with res show ?thesis by simp
  qed
  show "this s' = this s"
  proof (cases "r = Inl TimeoutExpiredError")
    case True
    with res have "s' = snd (snd (replicas_timed_out w c s1))" by (metis snd_conv)
    with handler(3) inv(6) show ?thesis by simp
  next
    case False
    with res inv(6) show ?thesis by simp
  qed
  show "\<forall>e. ready_replicas (probe_get w (probes c - 1)) = Inl e \<and> e \<notin> retry \<longrightarrow>
           res = Inl e \<and> s' = s"
  proof (intro allI impI)
    fix e assume e: "ready_replicas (probe_get w (probes c - 1)) = Inl e \<and> e \<notin> retry"
    with inv(5) have r: "r = Inl e" by blast
    from e status_attr_not_timeout [of readyReplicas "probe_get w (probes c - 1)"]
    have "e \<noteq> TimeoutExpiredError" by (auto simp: ready_replicas_def)
    with r res inv(6) show "res = Inl e \<and> s' = s" by simp
  qed
qed

section \<open>The rounds of \<open>wait_for_status\<close>\<close>

lemma raise_fault_retryable: "raise_fault f = ProtocolError \<longleftrightarrow> f = ProtocolFault"
  by (cases f) simp_all

lemma raise_fault_not_timeout: "raise_fault f \<noteq> TimeoutExpiredError"
  by (cases f) simp_all

lemma ready_value_not_timeout: "ready_value got_test got_value \<noteq> Inl TimeoutExpiredError"
  by (auto simp: ready_value_def raise_fault_not_timeout split: sum.splits option.splits)


lemma status_step_cases:
  "sampler_step (vm_spec tmo) (status_probe w) (status_body w status') (vm_cost w) c s =
     (let c1 = c\<lparr>probes := probes c + 1, elapsed := elapsed c + vm_cost w (probes c)\<rparr>;
          c2 = c1\<lparr>yields := yields c + 1\<rparr>;
          s1 = s\<lparr>logged := logged s @ [CheckReady (name (this s))]\<rparr>
      in case list_get w (probes c) of
           Inl f \<Rightarrow>
             if f = ProtocolFault then deadline_check (vm_spec tmo) c1 s
             else (Stop (Inl (raise_fault f)), c1, s)
         | Inr items \<Rightarrow>
             if items = [] then deadline_check (vm_spec tmo) c2 s
             else
               (case ready_value (test_get w (probes c)) (value_get w (probes c)) of
                  Inl e \<Rightarrow> (Stop (Inl e), c2, s1)
                | Inr r \<Rightarrow>
                    if r = status' then (Stop (Inr ()), c2, s1)
                    else deadline_check (vm_spec tmo) c2 s1))"
proof (cases "list_get w (probes c)")
  case (Inl f)
  then show ?thesis
    by (simp add: sampler_step_def Let_def status_probe_def raise_fault_retryable)
next
  case (Inr items)
  show ?thesis
  proof (cases "ready_value (test_get w (probes c)) (value_get w (probes c))")
    case (Inl e)
    with Inr show ?thesis
      by (simp add: sampler_step_def Let_def status_probe_def status_body_def ready_def)
  next
    case r: (Inr r)
    with Inr show ?thesis
      by (simp add: sampler_step_def Let_def status_probe_def status_body_def ready_def)
  qed
qed

lemma status_step_Again:
  assumes "sampler_step (vm_spec tmo) (status_probe w) (status_body w status') (vm_cost w) c s
             = (Again, c1, s1)"
  shows "\<not> status_match w status' (probes c) \<and> \<not> status_fatal w (probes c) \<and> this s1 = this s"
proof (cases "list_get w (probes c)")
  case (Inl f)
  with assms [unfolded status_step_cases] show ?thesis
    by (auto simp: Let_def deadline_check_Stop deadline_check_Again status_match_def status_fatal_def split: if_splits)
next
  case items: (Inr items)
  show ?thesis
  proof (cases "ready_value (test_get w (probes c)) (value_get w (probes c))")
    case (Inl e)
    with items assms [unfolded status_step_cases] show ?thesis
      by (auto simp: Let_def deadline_check_Stop deadline_check_Again status_match_def
                    status_fatal_def split: if_splits)
  next
    case (Inr r)
    with items assms [unfolded status_step_cases] show ?thesis
      by (auto simp: Let_def deadline_check_Stop deadline_check_Again status_match_def
                    status_fatal_def split: if_splits)
  qed
qed

lemma status_step_Stop:
  assumes "sampler_step (vm_spec tmo) (status_probe w) (status_body w status') (vm_cost w) c s
             = (Stop r, c', s')"
  shows "this s' = this s \<and>
         (r = Inr () \<longleftrightarrow> status_match w status' (probes c)) \<and>
         (r = Inl TimeoutExpiredError \<longrightarrow> tmo \<le> elapsed c' \<and> \<not> status_fatal w (probes c)) \<and>
         (\<not> status_fatal w (probes c) \<longrightarrow> r = Inr () \<or> r = Inl TimeoutExpiredError) \<and>
         (status_fatal w (probes c) \<longrightarrow> (\<exists>e. r = Inl e \<and> e \<noteq> TimeoutExpiredError))"
proof -
  note step = assms [unfolded status_step_cases Let_def]
  show ?thesis
  proof (cases "list_get w (probes c)")
    case (Inl f)
    show ?thesis
    proof (cases "f = ProtocolFault")
      case True
      with step Inl have "r = Inl TimeoutExpiredError" "tmo \<le> elapsed c'" "s' = s"
        by (simp_all add: deadline_check_Stop)
      with Inl True show ?thesis
        by (simp add: status_match_def status_fatal_def)
    next
      case False
      with step Inl have "r = Inl (raise_fault f)" "s' = s"
        by simp_all
      with Inl False show ?thesis
        by (simp add: status_match_def status_fatal_def raise_fault_not_timeout)
    qed
  next
    case items: (Inr items)
    show ?thesis
    proof (cases "items = []")
      case True
      with step items have "r = Inl TimeoutExpiredError" "tmo \<le> elapsed c'" "s' = s"
        by (simp_all add: deadline_check_Stop)
      with items True show ?thesis
        by (simp add: status_match_def status_fatal_def)
    next
      case False
      show ?thesis
      proof (cases "ready_value (test_get w (probes c)) (value_get w (probes c))")
        case (Inl e)
        with ready_value_not_timeout [of "test_get w (probes c)" "value_get w (probes c)"]
        have e: "e \<noteq> TimeoutExpiredError" by auto
        from step items False Inl have "r = Inl e" "this s' = this s"
          by auto
        with items False Inl e show ?thesis
          by (simp add: status_match_def status_fatal_def)
      next
        case (Inr v)
        show ?thesis
        proof (cases "v = status'")
          case True
          with step items False Inr have "r = Inr ()" "this s' = this s"
            by auto
          with items False Inr True show ?thesis
            by (simp add: status_match_def status_fatal_def)
        next
          case ne: False
          with step items False Inr have "r = Inl TimeoutExpiredError" "tmo \<le> elapsed c'"
            "this s' = this s"
            by (auto simp: deadline_check_Stop)
          with items False Inr ne show ?thesis
            by (simp add: status_match_def status_fatal_def)
        qed
      qed
    qed
  qed
qed

lemma wait_for_status_run:
  "\<exists>res c s'. wait_for_status w status' tmo s = Some (res, c, s') \<and>
     this s' = this s \<and> 0 < probes c \<and>
     (\<forall>k. Suc k < probes c \<longrightarrow> \<not> status_match w status' k \<and> \<not> status_fatal w k) \<and>
     (res = Inr () \<longleftrightarrow> status_match w status' (probes c - 1)) \<and>
     (res = Inl TimeoutExpiredError \<longrightarrow> tmo \<le> elapsed c \<and> \<not> status_fatal w (probes c - 1)) \<and>
     (\<not> status_fatal w (probes c - 1) \<longrightarrow> res = Inr () \<or> res = Inl TimeoutExpiredError) \<and>
     (status_fatal w (probes c - 1) \<longrightarrow> (\<exists>e. res = Inl e \<and> e \<noteq> TimeoutExpiredError))"
proof -
  let ?s = "s\<lparr>logged := logged s @ [WaitForStatus (name (this s)) status']\<rparr>"
  have "\<exists>res. sampler_loop (vm_spec tmo) (status_probe w) (status_body w status') (vm_cost w)
                 fresh_sampler ?s = Some res"
    by (rule sampler_loop_terminates) simp
  then obtain r c s' where
    run: "sampler_loop (vm_spec tmo) (status_probe w) (status_body w status') (vm_cost w)
            fresh_sampler ?s = Some (r, c, s')"
    by (metis prod_cases3)
  have pf: "probes fresh_sampler = 0" by (simp add: fresh_sampler_def)
  have "probes fresh_sampler < probes c \<and>
        (\<forall>k. probes fresh_sampler \<le> k \<and> Suc k < probes c \<longrightarrow>
             \<not> status_match w status' k \<and> \<not> status_fatal w k) \<and>
        ((r = Inr () \<longleftrightarrow> status_match w status' (probes c - 1)) \<and>
         (r = Inl TimeoutExpiredError \<longrightarrow> tmo \<le> elapsed c \<and> \<not> status_fatal w (probes c - 1)) \<and>
         (\<not> status_fatal w (probes c - 1) \<longrightarrow> r = Inr () \<or> r = Inl TimeoutExpiredError) \<and>
         (status_fatal w (probes c - 1) \<longrightarrow> (\<exists>e. r = Inl e \<and> e \<noteq> TimeoutExpiredError))) \<and>
        this s' = this s"
  proof (rule sampler_loop_rounds
      [OF run, where I = "\<lambda>x. this x = this s"
        and A = "\<lambda>k. \<not> status_match w status' k \<and> \<not> status_fatal w k"
        and Z = "\<lambda>k r c. (r = Inr () \<longleftrightarrow> status_match w status' k) \<and>
                  (r = Inl TimeoutExpiredError \<longrightarrow> tmo \<le> elapsed c \<and> \<not> status_fatal w k) \<and>
                  (\<not> status_fatal w k \<longrightarrow> r = Inr () \<or> r = Inl TimeoutExpiredError) \<and>
                  (status_fatal w k \<longrightarrow> (\<exists>e. r = Inl e \<and> e \<noteq> TimeoutExpiredError))"])
    show "this ?s = this s" by simp
  next
    fix c s0 c1 s1
    assume "sampler_step (vm_spec tmo) (status_probe w) (status_body w status') (vm_cost w) c s0
              = (Again, c1, s1)" and "this s0 = this s"
    with status_step_Again [of tmo w status' c s0 c1 s1]
    show "(\<not> status_match w status' (probes c) \<and> \<not> status_fatal w (probes c)) \<and> this s1 = this s"
      by simp
  next
    fix c s0 r c' s'
    assume st: "sampler_step (vm_spec tmo) (status_probe w) (status_body w status') (vm_cost w) c s0
              = (Stop r, c', s')" and s0: "this s0 = this s"
    note f = status_step_Stop [OF st]
    from f have "this s' = this s0" by blast
    with s0 have "this s' = this s" by simp
    with f show "((r = Inr () \<longleftrightarrow> status_match w status' (probes c)) \<and>
           (r = Inl TimeoutExpiredError \<longrightarrow> tmo \<le> elapsed c' \<and> \<not> status_fatal w (probes c)) \<and>
           (\<not> status_fatal w (probes c) \<longrightarrow> r = Inr () \<or> r = Inl TimeoutExpiredError) \<and>
           (status_fatal w (probes c) \<longrightarrow> (\<exists>e. r = Inl e \<and> e \<noteq> TimeoutExpiredError))) \<and>
          this s' = this s"
      by blast
  qed
  then have all: "0 < probes c \<and>
        (\<forall>k. Suc k < probes c \<longrightarrow>
             \<not> status_match w status' k \<and> \<not> status_fatal w k) \<and>
        ((r = Inr () \<longleftrightarrow> status_match w status' (probes c - 1)) \<and>
         (r = Inl TimeoutExpiredError \<longrightarrow> tmo \<le> elapsed c \<and> \<not> status_fatal w (probes c - 1)) \<and>
         (\<not> status_fatal w (probes c - 1) \<longrightarrow> r = Inr () \<or> r = Inl TimeoutExpiredError) \<and>
         (status_fatal w (probes c - 1) \<longrightarrow> (\<exists>e. r = Inl e \<and> e \<noteq> TimeoutExpiredError))) \<and>
        this s' = this s"
    unfolding pf using zero_le by blast
  have inv: "this s' = this s" "0 < probes c"
    "\<forall>k. Suc k < probes c \<longrightarrow> \<not> status_match w status' k \<and> \<not> status_fatal w k"
    "r = Inr () \<longleftrightarrow> status_match w status' (probes c - 1)"
    "r = Inl TimeoutExpiredError \<longrightarrow> tmo \<le> elapsed c \<and> \<not> status_fatal w (probes c - 1)"
    "\<not> status_fatal w (probes c - 1) \<longrightarrow> r = Inr () \<or> r = Inl TimeoutExpiredError"
    "status_fatal w (probes c - 1) \<longrightarrow> (\<exists>e. r = Inl e \<and> e \<noteq> TimeoutExpiredError)"
    using all by blast+
  from run have "wait_for_status w status' tmo s = Some (r, c, s')"
    by (simp add: wait_for_status_def sampler_run_def)
  with inv show ?thesis by blast
qed

section \<open>Results on \<open>wait_for_replicas\<close>\<close>

text \<open>
  Claim C3, amended.  When the sampling loop of \<open>wait_for_replicas\<close> ends with
  \<open>TimeoutExpiredError\<close> and the two reads that build the log message succeed, the
  method logs the ready and the desired replica count just read and returns \<open>False\<close>.
  In particular, when the rounds before round \<open>n\<close> neither match nor raise nor reach
  the deadline, and round \<open>n\<close> does not match either and ends at or after the
  deadline, the method returns \<open>False\<close> after \<open>n + 1\<close> samples.
  No run of \<open>wait_for_replicas\<close> ends with \<open>TimeoutExpiredError\<close>.  All of this
  holds whichever error kinds the sampler retries by default.
\<close>

theorem wait_for_replicas_timeout_caught:
  "(sampler_run \<lparr>timeout = tmo, interval = sleep, retryable_errors = retry\<rparr>
       (replicas_probe w) (replicas_body w) (ms_cost w) s = Some (Inl TimeoutExpiredError, c, s1) \<and>
    ready_replicas (report_ready_get w) = Inr r \<and>
    desired_replicas (report_desired_get w) = Inr d \<longrightarrow>
    wait_for_replicas retry w tmo sleep s =
      Some (Inr False, c, s1\<lparr>logged := logged s1 @ [ReplicasNotReady (name (this s1)) r d]\<rparr>)) \<and>
   ((\<forall>j<n. replicas_idle w j \<and> round_start (ms_cost w) sleep j + ms_cost w j < tmo) \<and>
    replicas_idle w n \<and> tmo \<le> round_start (ms_cost w) sleep n + ms_cost w n \<and>
    ready_replicas (report_ready_get w) = Inr r \<and>
    desired_replicas (report_desired_get w) = Inr d \<longrightarrow>
    wait_for_replicas retry w tmo sleep s =
      Some (Inr False,
            \<lparr>probes = Suc n, yields = Suc n,
              elapsed = round_start (ms_cost w) sleep n + ms_cost w n\<rparr>,
            s\<lparr>logged := logged s @ [ReplicasNotReady (name (this s)) r d]\<rparr>)) \<and>
   wait_for_replicas retry w tmo sleep s \<noteq> Some (Inl TimeoutExpiredError, c', s')"
proof (intro conjI impI)
  assume "sampler_run \<lparr>timeout = tmo, interval = sleep, retryable_errors = retry\<rparr>
       (replicas_probe w) (replicas_body w) (ms_cost w) s = Some (Inl TimeoutExpiredError, c, s1) \<and>
    ready_replicas (report_ready_get w) = Inr r \<and>
    desired_replicas (report_desired_get w) = Inr d"
  then show "wait_for_replicas retry w tmo sleep s =
      Some (Inr False, c, s1\<lparr>logged := logged s1 @ [ReplicasNotReady (name (this s1)) r d]\<rparr>)"
    by (simp add: wait_for_replicas_def replicas_timed_out_def)
next
  assume a: "(\<forall>j<n. replicas_idle w j \<and> round_start (ms_cost w) sleep j + ms_cost w j < tmo) \<and>
    replicas_idle w n \<and> tmo \<le> round_start (ms_cost w) sleep n + ms_cost w n \<and>
    ready_replicas (report_ready_get w) = Inr r \<and>
    desired_replicas (report_desired_get w) = Inr d"
  let ?c = "\<lparr>probes = n, yields = n, elapsed = round_start (ms_cost w) sleep n\<rparr>"
  let ?c' = "\<lparr>probes = Suc n, yields = Suc n,
              elapsed = round_start (ms_cost w) sleep n + ms_cost w n\<rparr>"
  from a have idle: "replicas_idle w (probes ?c)" by simp
  from a have late: "tmo \<le> elapsed ?c + ms_cost w (probes ?c)" by simp
  from a have "sampler_loop (ms_spec retry tmo sleep) (replicas_probe w) (replicas_body w) (ms_cost w)
           fresh_sampler s =
         sampler_loop (ms_spec retry tmo sleep) (replicas_probe w) (replicas_body w) (ms_cost w) ?c s"
    by (intro replicas_loop_skip) simp
  also have "\<dots> = Some (Inl TimeoutExpiredError, ?c', s)"
  proof (rule sampler_loop_Stop)
    show "sampler_step (ms_spec retry tmo sleep) (replicas_probe w) (replicas_body w) (ms_cost w) ?c s =
            (Stop (Inl TimeoutExpiredError), ?c', s)"
      using late by (simp add: replicas_step_idle [OF idle])
  qed
  finally have "sampler_run (ms_spec retry tmo sleep) (replicas_probe w) (replicas_body w) (ms_cost w) s
                  = Some (Inl TimeoutExpiredError, ?c', s)"
    by (simp add: sampler_run_def)
  with a show "wait_for_replicas retry w tmo sleep s =
      Some (Inr False, ?c', s\<lparr>logged := logged s @ [ReplicasNotReady (name (this s)) r d]\<rparr>)"
    by (simp add: wait_for_replicas_def replicas_timed_out_def)
next
  show "wait_for_replicas retry w tmo sleep s \<noteq> Some (Inl TimeoutExpiredError, c', s')"
    using wait_for_replicas_run(4) [of retry w tmo sleep s "Inl TimeoutExpiredError" c' s'] by blast
qed

text \<open>
  A machine set stuck at one ready replica of two, with a timeout of 2 and a sleep of 1:
  three samples are taken, the loop times out, and the method returns \<open>False\<close>.
\<close>

theorem wait_for_replicas_timeout_caught_witness:
  "sampler_run \<lparr>timeout = 2, interval = 1, retryable_errors = UNIV\<rparr>
       (replicas_probe (stuck (ms_answer (Some 1) (Some 2))))
       (replicas_body (stuck (ms_answer (Some 1) (Some 2))))
       (ms_cost (stuck (ms_answer (Some 1) (Some 2)))) workers
     = Some (Inl TimeoutExpiredError, \<lparr>probes = 3, yields = 3, elapsed = 2\<rparr>, workers) \<and>
   ready_replicas (report_ready_get (stuck (ms_answer (Some 1) (Some 2)))) = Inr (Some 1) \<and>
   desired_replicas (report_desired_get (stuck (ms_answer (Some 1) (Some 2)))) = Inr (Some 2) \<and>
   replicas_idle (stuck (ms_answer (Some 1) (Some 2))) 0 \<and>
   replicas_idle (stuck (ms_answer (Some 1) (Some 2))) 1 \<and>
   replicas_idle (stuck (ms_answer (Some 1) (Some 2))) 2 \<and>
   round_start (ms_cost (stuck (ms_answer (Some 1) (Some 2)))) 1 1 +
     ms_cost (stuck (ms_answer (Some 1) (Some 2))) 1 < 2 \<and>
   2 \<le> round_start (ms_cost (stuck (ms_answer (Some 1) (Some 2)))) 1 2 +
     ms_cost (stuck (ms_answer (Some 1) (Some 2))) 2 \<and>
   wait_for_replicas UNIV (stuck (ms_answer (Some 1) (Some 2))) 2 1 workers =
     Some (Inr False, \<lparr>probes = 3, yields = 3, elapsed = 2\<rparr>,
           workers\<lparr>logged := [ReplicasNotReady (Some ''workers'') (Some 1) (Some 2)]\<rparr>)"
proof -
  let ?w = "stuck (ms_answer (Some 1) (Some 2))"
  have run: "sampler_run \<lparr>timeout = 2, interval = 1, retryable_errors = UNIV\<rparr>
       (replicas_probe ?w) (replicas_body ?w) (ms_cost ?w) workers
     = Some (Inl TimeoutExpiredError, \<lparr>probes = 3, yields = 3, elapsed = 2\<rparr>, workers)"
    by code_simp
  have r: "ready_replicas (report_ready_get ?w) = Inr (Some 1)" by code_simp
  have d: "desired_replicas (report_desired_get ?w) = Inr (Some 2)" by code_simp
  have n: "name (this workers) = Some ''workers''" "logged workers = []"
    by (simp_all add: workers_def)
  have idle: "replicas_idle ?w 0" "replicas_idle ?w 1" "replicas_idle ?w 2"
    by code_simp+
  have time: "round_start (ms_cost ?w) 1 0 + ms_cost ?w 0 < 2"
    "round_start (ms_cost ?w) 1 1 + ms_cost ?w 1 < 2"
    "2 \<le> round_start (ms_cost ?w) 1 2 + ms_cost ?w 2"
    "round_start (ms_cost ?w) 1 2 + ms_cost ?w 2 = 2"
    by code_simp+
  have early: "\<forall>j<2. replicas_idle ?w j \<and> round_start (ms_cost ?w) 1 j + ms_cost ?w j < 2"
  proof (intro allI impI)
    fix j :: nat
    assume "j < 2"
    then have "j = 0 \<or> j = 1" by arith
    with idle(1,2) time(1,2)
    show "replicas_idle ?w j \<and> round_start (ms_cost ?w) 1 j + ms_cost ?w j < 2"
      by auto
  qed
  note claim = wait_for_replicas_timeout_caught
         [of 2 1 UNIV ?w workers "\<lparr>probes = 3, yields = 3, elapsed = 2\<rparr>" workers "Some 1" "Some 2" 2]
  from claim [THEN conjunct1, THEN mp] run r d
  have first: "wait_for_replicas UNIV ?w 2 1 workers =
     Some (Inr False, \<lparr>probes = 3, yields = 3, elapsed = 2\<rparr>,
           workers\<lparr>logged := logged workers @
                      [ReplicasNotReady (name (this workers)) (Some 1) (Some 2)]\<rparr>)"
    by blast
  from claim [THEN conjunct2, THEN conjunct1, THEN mp] early idle(3) time(3) r d
  have "wait_for_replicas UNIV ?w 2 1 workers =
     Some (Inr False,
           \<lparr>probes = Suc 2, yields = Suc 2,
              elapsed = round_start (ms_cost ?w) 1 2 + ms_cost ?w 2\<rparr>,
           workers\<lparr>logged := logged workers @
                      [ReplicasNotReady (name (this workers)) (Some 1) (Some 2)]\<rparr>)"
    by blast
  from first n run r d idle time(2,3) show ?thesis by simp
qed

text \<open>
  Claim C3 as stated does not hold: on the same machine set, when the read of
  \<open>self.ready_replicas\<close> for the log message fails with a \<open>ProtocolError\<close>, the loop
  has raised \<open>TimeoutExpiredError\<close> and yet the method raises instead of returning
  \<open>False\<close>.
\<close>

theorem wait_for_replicas_report_fails_counterexample:
  "sampler_run \<lparr>timeout = 2, interval = 1, retryable_errors = UNIV\<rparr>
       (replicas_probe (stuck (Inl ProtocolFault))) (replicas_body (stuck (Inl ProtocolFault)))
       (ms_cost (stuck (Inl ProtocolFault))) workers
     = Some (Inl TimeoutExpiredError, \<lparr>probes = 3, yields = 3, elapsed = 2\<rparr>, workers) \<and>
   wait_for_replicas UNIV (stuck (Inl ProtocolFault)) 2 1 workers =
     Some (Inl ProtocolError, \<lparr>probes = 3, yields = 3, elapsed = 2\<rparr>, workers)"
  by code_simp

text \<open>
  Claim C4, amended.  When the probe raises an error that is not in the retryable set,
  the loop ends in that round with that error, and the round yields no value.
  \<open>wait_for_replicas\<close> passes no \<open>exceptions\<close> argument, so its retryable set is
  the sampler's default: when the rounds before round \<open>n\<close> neither match nor raise nor
  reach the deadline and the \<open>ready_replicas\<close> probe of round \<open>n\<close> raises an error
  outside that default, the wait ends there with that error; and in any run, a round
  whose probe raised such an error is the last round, its error is the result, and
  nothing is logged.
\<close>

theorem fatal_probe_error_surfaces:
  "(probe (probes c) s = (Inl e, s1) \<and> e \<notin> retryable_errors sp \<longrightarrow>
      sampler_loop sp probe body cost c s =
        Some (Inl e, c\<lparr>probes := probes c + 1, elapsed := elapsed c + cost (probes c)\<rparr>, s1)) \<and>
   ((\<forall>j<n. replicas_idle w j \<and> round_start (ms_cost w) sleep j + ms_cost w j < tmo) \<and>
    ready_replicas (probe_get w n) = Inl e' \<and> e' \<notin> retry \<longrightarrow>
      wait_for_replicas retry w tmo sleep s' =
        Some (Inl e',
              \<lparr>probes = Suc n, yields = n,
                elapsed = round_start (ms_cost w) sleep n + ms_cost w n\<rparr>, s')) \<and>
   (wait_for_replicas retry w tmo sleep s' = Some (res, c', s'') \<and> k < probes c' \<and>
    ready_replicas (probe_get w k) = Inl e' \<and> e' \<notin> retry \<longrightarrow>
      Suc k = probes c' \<and> res = Inl e' \<and> s'' = s')"
proof (intro conjI impI)
  assume "probe (probes c) s = (Inl e, s1) \<and> e \<notin> retryable_errors sp"
  then have "sampler_step sp probe body cost c s =
               (Stop (Inl e), c\<lparr>probes := probes c + 1, elapsed := elapsed c + cost (probes c)\<rparr>, s1)"
    by (simp add: sampler_step_def Let_def)
  then show "sampler_loop sp probe body cost c s =
        Some (Inl e, c\<lparr>probes := probes c + 1, elapsed := elapsed c + cost (probes c)\<rparr>, s1)"
    by (rule sampler_loop_Stop)
next
  assume a: "(\<forall>j<n. replicas_idle w j \<and> round_start (ms_cost w) sleep j + ms_cost w j < tmo) \<and>
    ready_replicas (probe_get w n) = Inl e' \<and> e' \<notin> retry"
  let ?c = "\<lparr>probes = n, yields = n, elapsed = round_start (ms_cost w) sleep n\<rparr>"
  let ?c' = "\<lparr>probes = Suc n, yields = n,
              elapsed = round_start (ms_cost w) sleep n + ms_cost w n\<rparr>"
  from a have "e' \<noteq> TimeoutExpiredError"
    using status_attr_not_timeout [of readyReplicas "probe_get w n"]
    by (auto simp: ready_replicas_def)
  moreover from a have "sampler_loop (ms_spec retry tmo sleep) (replicas_probe w) (replicas_body w)
           (ms_cost w) fresh_sampler s' =
         sampler_loop (ms_spec retry tmo sleep) (replicas_probe w) (replicas_body w) (ms_cost w)
           ?c s'"
    by (intro replicas_loop_skip) simp
  moreover have "sampler_loop (ms_spec retry tmo sleep) (replicas_probe w) (replicas_body w)
           (ms_cost w) ?c s' = Some (Inl e', ?c', s')"
  proof (rule sampler_loop_Stop)
    from a show "sampler_step (ms_spec retry tmo sleep) (replicas_probe w) (replicas_body w)
                   (ms_cost w) ?c s' = (Stop (Inl e'), ?c', s')"
      by (simp add: sampler_step_def Let_def replicas_probe_def)
  qed
  ultimately show "wait_for_replicas retry w tmo sleep s' = Some (Inl e', ?c', s')"
    by (simp add: wait_for_replicas_def sampler_run_def)
next
  assume a: "wait_for_replicas retry w tmo sleep s' = Some (res, c', s'') \<and> k < probes c' \<and>
    ready_replicas (probe_get w k) = Inl e' \<and> e' \<notin> retry"
  then have run: "wait_for_replicas retry w tmo sleep s' = Some (res, c', s'')"
    and k: "k < probes c'" and e': "ready_replicas (probe_get w k) = Inl e'" "e' \<notin> retry"
    by simp_all
  from wait_for_replicas_run(3) [OF run] e' have "\<not> Suc k < probes c'" by blast
  with k have last: "Suc k = probes c'" by simp
  then have "probes c' - 1 = k" by simp
  with wait_for_replicas_run(6) [OF run] e' have "res = Inl e' \<and> s'' = s'"
    by simp
  with last show "Suc k = probes c'" and "res = Inl e'" and "s'' = s'"
    by simp_all
qed

text \<open>
  A sampler that retries \<open>ProtocolError\<close> only, and a cluster whose API server fails
  the probe of round 2 with another error: two samples are yielded, and the wait ends at
  the third probe with that error.
\<close>

theorem fatal_probe_error_surfaces_witness:
  "replicas_probe (failing_at 2) (probes \<lparr>probes = 2, yields = 2, elapsed = 2\<rparr>) workers =
     (Inl ApiException, workers) \<and>
   ApiException \<notin> retryable_errors (ms_spec {ProtocolError} 5 1) \<and>
   sampler_loop (ms_spec {ProtocolError} 5 1)
     (replicas_probe (failing_at 2)) (replicas_body (failing_at 2)) (ms_cost (failing_at 2))
     \<lparr>probes = 2, yields = 2, elapsed = 2\<rparr> workers =
       Some (Inl ApiException, \<lparr>probes = 3, yields = 2, elapsed = 2\<rparr>, workers) \<and>
   replicas_idle (failing_at 2) 0 \<and>
   round_start (ms_cost (failing_at 2)) 1 0 + ms_cost (failing_at 2) 0 < 5 \<and>
   replicas_idle (failing_at 2) 1 \<and>
   round_start (ms_cost (failing_at 2)) 1 1 + ms_cost (failing_at 2) 1 < 5 \<and>
   ready_replicas (probe_get (failing_at 2) 2) = Inl ApiException \<and>
   ApiException \<notin> {ProtocolError} \<and>
   wait_for_replicas {ProtocolError} (failing_at 2) 5 1 workers =
     Some (Inl ApiException, \<lparr>probes = 3, yields = 2, elapsed = 2\<rparr>, workers) \<and>
   (2::nat) < probes \<lparr>probes = 3, yields = 2, elapsed = 2\<rparr>"
proof -
  let ?w = "failing_at 2"
  let ?c = "\<lparr>probes = 2, yields = 2, elapsed = 2\<rparr>"
  let ?c' = "\<lparr>probes = 3, yields = 2, elapsed = 2\<rparr>"
  note claim = fatal_probe_error_surfaces
         [of "replicas_probe ?w" ?c workers ApiException workers "ms_spec {ProtocolError} 5 1"
             "replicas_body ?w" "ms_cost ?w" 2 ?w 1 5 ApiException "{ProtocolError}" workers
             "Inl ApiException" ?c' workers 2]
  have p: "replicas_probe ?w (probes ?c) workers = (Inl ApiException, workers)"
    by code_simp
  have ne: "ApiException \<notin> retryable_errors (ms_spec {ProtocolError} 5 1)"
    "ApiException \<notin> {ProtocolError}"
    by simp_all
  have idle: "replicas_idle ?w 0" "replicas_idle ?w 1"
    by code_simp+
  have time: "round_start (ms_cost ?w) 1 0 + ms_cost ?w 0 < 5"
    "round_start (ms_cost ?w) 1 1 + ms_cost ?w 1 < 5"
    "round_start (ms_cost ?w) 1 2 + ms_cost ?w 2 = 2"
    by code_simp+
  have e: "ready_replicas (probe_get ?w 2) = Inl ApiException"
    by code_simp
  have c: "ms_cost ?w 2 = 0"
    by (simp add: failing_at_def)
  have early: "\<forall>j<2. replicas_idle ?w j \<and> round_start (ms_cost ?w) 1 j + ms_cost ?w j < 5"
  proof (intro allI impI)
    fix j :: nat
    assume "j < 2"
    then have "j = 0 \<or> j = 1" by arith
    with idle time(1,2)
    show "replicas_idle ?w j \<and> round_start (ms_cost ?w) 1 j + ms_cost ?w j < 5"
      by auto
  qed
  from claim [THEN conjunct1, THEN mp, OF conjI [OF p ne(1)]] c
  have loop: "sampler_loop (ms_spec {ProtocolError} 5 1)
     (replicas_probe ?w) (replicas_body ?w) (ms_cost ?w) ?c workers =
       Some (Inl ApiException, ?c', workers)"
    by simp
  from claim [THEN conjunct2, THEN conjunct1, THEN mp] early e ne(2) time(3)
  have run: "wait_for_replicas {ProtocolError} ?w 5 1 workers =
               Some (Inl ApiException, ?c', workers)"
    by simp
  have k: "(2::nat) < probes ?c'" by simp
  from claim [THEN conjunct2, THEN conjunct2, THEN mp] run k e ne(2)
  have "Suc 2 = probes ?c'" by blast
  from p ne loop idle time(1,2) e run k show ?thesis by simp
qed

text \<open>
  Claim C4 as stated does not hold when the sampler's default retries every error kind:
  the first probe of \<open>ready_replicas\<close> raises, the error is absorbed, the second probe
  finds the replicas ready, and the wait returns \<open>True\<close>.
\<close>

theorem retried_probe_error_counterexample:
  "ready_replicas (probe_get recovering 0) = Inl ApiException \<and>
   wait_for_replicas UNIV recovering 5 1 workers =
     Some (Inr True, \<lparr>probes = 2, yields = 1, elapsed = 1\<rparr>, workers)"
proof -
  have "ready_replicas (probe_get recovering 0) = Inl ApiException"
    by code_simp
  moreover have "wait_for_replicas UNIV recovering 5 1 workers =
     Some (Inr True, \<lparr>probes = 2, yields = 1, elapsed = 1\<rparr>, workers)"
    by (simp add: wait_for_replicas_def sampler_run_def fresh_sampler_def sampler_loop.simps
                  sampler_step_def deadline_check_def recovering_def replicas_probe_def
                  replicas_body_def ready_replicas_def desired_replicas_def status_attr_def
                  ms_answer_def)
  ultimately show ?thesis by blast
qed

text \<open>
  Claim C5.  Whenever \<open>wait_for_replicas\<close> returns, it has returned \<open>True\<close> exactly
  when its last sample matched (non-zero and equal to the desired count), and no earlier
  sample matched.  When round \<open>n\<close> is the first to match and the rounds before it
  neither raise nor reach the deadline, the method returns \<open>True\<close> after exactly
  \<open>n + 1\<close> samples.  This holds whichever error kinds the sampler retries by default.
\<close>

theorem wait_for_replicas_first_match:
  "(wait_for_replicas retry w tmo sleep s = Some (res, c, s') \<longrightarrow>
      0 < probes c \<and> (res = Inr True \<longleftrightarrow> replicas_match w (probes c - 1)) \<and>
      (\<forall>k. Suc k < probes c \<longrightarrow> \<not> replicas_match w k)) \<and>
   ((\<forall>j<n. replicas_idle w j \<and> round_start (ms_cost w) sleep j + ms_cost w j < tmo) \<and>
    replicas_match w n \<longrightarrow>
      wait_for_replicas retry w tmo sleep s =
        Some (Inr True,
              \<lparr>probes = Suc n, yields = Suc n,
                elapsed = round_start (ms_cost w) sleep n + ms_cost w n\<rparr>, s))"
proof (intro conjI impI)
  assume run: "wait_for_replicas retry w tmo sleep s = Some (res, c, s')"
  from wait_for_replicas_run(1) [OF run] show "0 < probes c" .
  from wait_for_replicas_run(2) [OF run]
  show "res = Inr True \<longleftrightarrow> replicas_match w (probes c - 1)" .
  from wait_for_replicas_run(3) [OF run]
  show "\<forall>k. Suc k < probes c \<longrightarrow> \<not> replicas_match w k" by blast
next
  assume a: "(\<forall>j<n. replicas_idle w j \<and> round_start (ms_cost w) sleep j + ms_cost w j < tmo) \<and>
    replicas_match w n"
  let ?c = "\<lparr>probes = n, yields = n, elapsed = round_start (ms_cost w) sleep n\<rparr>"
  from a have m: "replicas_match w (probes ?c)" by simp
  from a have "sampler_loop (ms_spec retry tmo sleep) (replicas_probe w) (replicas_body w) (ms_cost w)
           fresh_sampler s =
         sampler_loop (ms_spec retry tmo sleep) (replicas_probe w) (replicas_body w) (ms_cost w) ?c s"
    by (intro replicas_loop_skip) simp
  also have "\<dots> = Some (Inr True, \<lparr>probes = Suc n, yields = Suc n,
                elapsed = round_start (ms_cost w) sleep n + ms_cost w n\<rparr>, s)"
    by (rule sampler_loop_Stop) (simp add: replicas_step_match [OF m])
  finally show "wait_for_replicas retry w tmo sleep s =
        Some (Inr True,
              \<lparr>probes = Suc n, yields = Suc n,
                elapsed = round_start (ms_cost w) sleep n + ms_cost w n\<rparr>, s)"
    by (simp add: wait_for_replicas_def sampler_run_def)
qed

text \<open>
  A machine set that scales up by one replica per round: rounds 0 and 1 do not match,
  round 2 does, and the wait returns \<open>True\<close> after three samples.
\<close>

theorem wait_for_replicas_first_match_witness:
  "replicas_idle scaling_up 0 \<and>
   round_start (ms_cost scaling_up) 1 0 + ms_cost scaling_up 0 < 5 \<and>
   replicas_idle scaling_up 1 \<and>
   round_start (ms_cost scaling_up) 1 1 + ms_cost scaling_up 1 < 5 \<and>
   replicas_match scaling_up 2 \<and>
   wait_for_replicas UNIV scaling_up 5 1 workers =
     Some (Inr True, \<lparr>probes = 3, yields = 3, elapsed = 2\<rparr>, workers) \<and>
   \<not> replicas_match scaling_up 0 \<and> \<not> replicas_match scaling_up 1"
proof -
  have idle: "replicas_idle scaling_up 0" "replicas_idle scaling_up 1"
    by code_simp+
  have time: "round_start (ms_cost scaling_up) 1 0 + ms_cost scaling_up 0 < 5"
    "round_start (ms_cost scaling_up) 1 1 + ms_cost scaling_up 1 < 5"
    "round_start (ms_cost scaling_up) 1 2 + ms_cost scaling_up 2 = 2"
    by code_simp+
  have m: "replicas_match scaling_up 2"
    by code_simp
  have hyp: "\<forall>j<2. replicas_idle scaling_up j \<and>
               round_start (ms_cost scaling_up) 1 j + ms_cost scaling_up j < 5"
  proof (intro allI impI)
    fix j :: nat
    assume "j < 2"
    then have "j = 0 \<or> j = 1" by arith
    with idle time(1,2)
    show "replicas_idle scaling_up j \<and>
          round_start (ms_cost scaling_up) 1 j + ms_cost scaling_up j < 5"
      by auto
  qed
  note claim = wait_for_replicas_first_match
         [of UNIV scaling_up 5 1 workers "Inr True" "\<lparr>probes = 3, yields = 3, elapsed = 2\<rparr>" workers 2]
  from claim [THEN conjunct2, THEN mp, OF conjI [OF hyp m]] time(3)
  have run: "wait_for_replicas UNIV scaling_up 5 1 workers =
               Some (Inr True, \<lparr>probes = 3, yields = 3, elapsed = 2\<rparr>, workers)"
    by simp
  from claim [THEN conjunct1, THEN mp, OF run]
  have "\<forall>k. Suc k < 3 \<longrightarrow> \<not> replicas_match scaling_up k"
    by simp
  then have "\<not> replicas_match scaling_up 0" "\<not> replicas_match scaling_up 1"
    by simp_all
  with idle time(1,2) m run show ?thesis by blast
qed

section \<open>Results on \<open>wait_for_status\<close> and \<open>ready\<close>\<close>

text \<open>
  Claim C2.  When every invocation of the probe raises an error that is declared
  retryable, and the sampler sleeps between rounds, the loop yields no value, never
  propagates such an error, and ends with \<open>TimeoutExpiredError\<close> once the timeout has
  elapsed; without a sleep the loop may go on for ever, and if it ends it ends in the
  same way.  In \<open>wait_for_status\<close>, whose retryable kind is \<open>ProtocolError\<close>, a list
  request that always breaks with a protocol error makes the wait end with
  \<open>TimeoutExpiredError\<close>, with no value yielded and nothing logged but the opening line.
\<close>

theorem retryable_errors_end_in_timeout:
  "((\<forall>k s. \<exists>e s1. probe k s = (Inl e, s1) \<and> e \<in> retryable_errors sp) \<and> 0 < interval sp \<longrightarrow>
      (\<exists>c' s'. sampler_loop sp probe body cost c s = Some (Inl TimeoutExpiredError, c', s') \<and>
               yields c' = yields c \<and> timeout sp \<le> elapsed c')) \<and>
   ((\<forall>k s. \<exists>e s1. probe k s = (Inl e, s1) \<and> e \<in> retryable_errors sp) \<and>
    sampler_loop sp probe body cost c s = Some (r, c1, s1) \<longrightarrow>
      r = Inl TimeoutExpiredError \<and> yields c1 = yields c \<and> timeout sp \<le> elapsed c1) \<and>
   ((\<forall>k. list_get w k = Inl ProtocolFault) \<longrightarrow>
      (\<exists>c'. wait_for_status w status' tmo s0 =
              Some (Inl TimeoutExpiredError, c',
                    s0\<lparr>logged := logged s0 @ [WaitForStatus (name (this s0)) status']\<rparr>) \<and>
            yields c' = 0 \<and> tmo \<le> elapsed c'))"
proof (intro conjI impI)
  assume a: "(\<forall>k s. \<exists>e s1. probe k s = (Inl e, s1) \<and> e \<in> retryable_errors sp) \<and> 0 < interval sp"
  have "\<exists>c' s'. sampler_loop sp probe body cost c s = Some (Inl TimeoutExpiredError, c', s') \<and>
                 yields c' = yields c \<and> timeout sp \<le> elapsed c' \<and> True"
  proof (rule only_retryable_times_out [where I = "\<lambda>_. True"])
    fix k s
    from a show "\<exists>e s1. probe k s = (Inl e, s1) \<and> e \<in> retryable_errors sp \<and> True"
      by simp
  next
    from a show "0 < interval sp" by simp
  qed simp
  then show "\<exists>c' s'. sampler_loop sp probe body cost c s = Some (Inl TimeoutExpiredError, c', s') \<and>
               yields c' = yields c \<and> timeout sp \<le> elapsed c'"
    by simp
next
  assume a: "(\<forall>k s. \<exists>e s1. probe k s = (Inl e, s1) \<and> e \<in> retryable_errors sp) \<and>
    sampler_loop sp probe body cost c s = Some (r, c1, s1)"
  have "r = Inl TimeoutExpiredError \<and> yields c1 = yields c \<and> timeout sp \<le> elapsed c1 \<and> True"
  proof (rule only_retryable_run [where I = "\<lambda>_. True"])
    fix k s
    from a show "\<exists>e s1. probe k s = (Inl e, s1) \<and> e \<in> retryable_errors sp \<and> True"
      by simp
  next
    from a show "sampler_loop sp probe body cost c s = Some (r, c1, s1)" by simp
  qed simp
  then show "r = Inl TimeoutExpiredError" and "yields c1 = yields c"
    and "timeout sp \<le> elapsed c1"
    by simp_all
next
  assume a: "\<forall>k. list_get w k = Inl ProtocolFault"
  let ?s = "s0\<lparr>logged := logged s0 @ [WaitForStatus (name (this s0)) status']\<rparr>"
  have "\<exists>c' s'. sampler_loop (vm_spec tmo) (status_probe w) (status_body w status') (vm_cost w)
                   fresh_sampler ?s = Some (Inl TimeoutExpiredError, c', s') \<and>
                 yields c' = yields fresh_sampler \<and> timeout (vm_spec tmo) \<le> elapsed c' \<and> s' = ?s"
  proof (rule only_retryable_times_out [where I = "\<lambda>x. x = ?s"])
    fix k s
    assume "s = ?s"
    with a show "\<exists>e s1. status_probe w k s = (Inl e, s1) \<and> e \<in> retryable_errors (vm_spec tmo) \<and>
                        s1 = ?s"
      by (simp add: status_probe_def)
  qed simp_all
  then show "\<exists>c'. wait_for_status w status' tmo s0 = Some (Inl TimeoutExpiredError, c', ?s) \<and>
                  yields c' = 0 \<and> tmo \<le> elapsed c'"
    by (auto simp: wait_for_status_def sampler_run_def fresh_sampler_def)
qed

text \<open>
  The scenario of the specification: a timeout of 3, a sleep of 1, and a probe that
  always raises the retryable error.  Four probes are made, no value is yielded, and the
  wait ends with \<open>TimeoutExpiredError\<close> at 3 seconds.
\<close>

theorem retryable_errors_end_in_timeout_witness:
  "(\<forall>k s. \<exists>e s1. status_probe flaky k s = (Inl e, s1) \<and> e \<in> retryable_errors (vm_spec 3)) \<and>
   0 < interval (vm_spec 3) \<and>
   (\<forall>k. list_get flaky k = Inl ProtocolFault) \<and>
   sampler_loop (vm_spec 3) (status_probe flaky) (status_body flaky (Some True)) (vm_cost flaky)
     fresh_sampler fedora =
     Some (Inl TimeoutExpiredError, \<lparr>probes = 4, yields = 0, elapsed = 3\<rparr>, fedora) \<and>
   wait_for_status flaky (Some True) 3 fedora =
     Some (Inl TimeoutExpiredError, \<lparr>probes = 4, yields = 0, elapsed = 3\<rparr>,
           fedora\<lparr>logged := [WaitForStatus (Some ''vm-fedora'') (Some True)]\<rparr>)"
proof -
  have h1: "\<forall>k s. \<exists>e s1. status_probe flaky k s = (Inl e, s1) \<and> e \<in> retryable_errors (vm_spec 3)"
    by (simp add: status_probe_def flaky_def)
  have h2: "0 < interval (vm_spec 3)" by simp
  have h3: "\<forall>k. list_get flaky k = Inl ProtocolFault"
    by (simp add: flaky_def)
  note claim = retryable_errors_end_in_timeout
    [of "status_probe flaky" "vm_spec 3" "status_body flaky (Some True)" "vm_cost flaky"
        fresh_sampler fedora "Inl TimeoutExpiredError" "\<lparr>probes = 4, yields = 0, elapsed = 3\<rparr>"
        fedora flaky "Some True" 3 fedora]
  have e1: "sampler_loop (vm_spec 3) (status_probe flaky) (status_body flaky (Some True))
              (vm_cost flaky) fresh_sampler fedora =
            Some (Inl TimeoutExpiredError, \<lparr>probes = 4, yields = 0, elapsed = 3\<rparr>, fedora)"
    by code_simp
  have e2: "wait_for_status flaky (Some True) 3 fedora =
     Some (Inl TimeoutExpiredError, \<lparr>probes = 4, yields = 0, elapsed = 3\<rparr>,
           fedora\<lparr>logged := [WaitForStatus (Some ''vm-fedora'') (Some True)]\<rparr>)"
    by code_simp
  from claim [THEN conjunct1, THEN mp, OF conjI [OF h1 h2]]
       claim [THEN conjunct2, THEN conjunct1, THEN mp, OF conjI [OF h1 e1]]
       claim [THEN conjunct2, THEN conjunct2, THEN mp, OF h3] h1 h2 h3 e1 e2
  show ?thesis by blast
qed

text \<open>
  Claim C6, amended.  \<open>wait_for_status\<close> always ends.  It returns normally exactly
  when the last sample it took has items and \<open>ready()\<close> equal to the requested status,
  and no earlier sample did.  It raises \<open>TimeoutExpiredError\<close> only when the timeout
  has elapsed.  Unless the last round raised an error that is not retried (from the list
  request, or from \<open>ready()\<close> in the loop body), these are the only two outcomes.
\<close>

theorem wait_for_status_outcome:
  "\<exists>res c s'. wait_for_status w status' tmo s = Some (res, c, s') \<and> 0 < probes c \<and>
     (\<forall>k. Suc k < probes c \<longrightarrow> \<not> status_match w status' k) \<and>
     (res = Inr () \<longleftrightarrow> status_match w status' (probes c - 1)) \<and>
     (res = Inl TimeoutExpiredError \<longrightarrow> tmo \<le> elapsed c) \<and>
     (\<not> status_fatal w (probes c - 1) \<longrightarrow> res = Inr () \<or> res = Inl TimeoutExpiredError)"
  using wait_for_status_run [of w status' tmo s] by blast

text \<open>
  A machine asked to stop: ready in rounds 0 and 1, without status in round 2.  The wait
  returns at the third sample; on the same machine a wait for \<open>False\<close> with a timeout
  of 2 takes three samples, none matching, and times out.
\<close>

theorem wait_for_status_outcome_witness:
  "wait_for_status stopping None 5 fedora =
     Some (Inr (), \<lparr>probes = 3, yields = 3, elapsed = 2\<rparr>,
           fedora\<lparr>logged := [WaitForStatus (Some ''vm-fedora'') None,
                              CheckReady (Some ''vm-fedora''), CheckReady (Some ''vm-fedora''),
                              CheckReady (Some ''vm-fedora'')]\<rparr>) \<and>
   status_match stopping None 2 \<and>
   \<not> status_match stopping None 0 \<and> \<not> status_match stopping None 1 \<and>
   \<not> status_fatal stopping 2 \<and>
   wait_for_status stopping (Some False) 2 fedora =
     Some (Inl TimeoutExpiredError, \<lparr>probes = 3, yields = 3, elapsed = 2\<rparr>,
           fedora\<lparr>logged := [WaitForStatus (Some ''vm-fedora'') (Some False),
                              CheckReady (Some ''vm-fedora''), CheckReady (Some ''vm-fedora''),
                              CheckReady (Some ''vm-fedora'')]\<rparr>) \<and>
   \<not> status_match stopping (Some False) 2 \<and>
   (2::nat) \<le> elapsed \<lparr>probes = 3, yields = 3, elapsed = 2\<rparr>"
proof -
  have late: "wait_for_status stopping (Some False) 2 fedora =
     Some (Inl TimeoutExpiredError, \<lparr>probes = 3, yields = 3, elapsed = 2\<rparr>,
           fedora\<lparr>logged := [WaitForStatus (Some ''vm-fedora'') (Some False),
                              CheckReady (Some ''vm-fedora''), CheckReady (Some ''vm-fedora''),
                              CheckReady (Some ''vm-fedora'')]\<rparr>)"
    by code_simp
  from wait_for_status_outcome [of stopping "Some False" 2 fedora] late
  have out: "\<not> status_match stopping (Some False) 2"
    "(2::nat) \<le> elapsed \<lparr>probes = 3, yields = 3, elapsed = 2\<rparr>"
    by simp_all
  have run: "wait_for_status stopping None 5 fedora =
     Some (Inr (), \<lparr>probes = 3, yields = 3, elapsed = 2\<rparr>,
           fedora\<lparr>logged := [WaitForStatus (Some ''vm-fedora'') None,
                              CheckReady (Some ''vm-fedora''), CheckReady (Some ''vm-fedora''),
                              CheckReady (Some ''vm-fedora'')]\<rparr>)"
    by code_simp
  have nf: "\<not> status_fatal stopping 2"
    by code_simp
  from wait_for_status_outcome [of stopping None 5 fedora] run
  have "(\<forall>k. Suc k < 3 \<longrightarrow> \<not> status_match stopping None k) \<and> status_match stopping None 2"
    by simp
  then have "status_match stopping None 2" "\<not> status_match stopping None 0"
    "\<not> status_match stopping None 1"
    by simp_all
  with run nf late out show ?thesis by blast
qed

text \<open>
  Claim C6 as stated does not hold: here the list request answers with an item, and the
  GET behind \<open>ready()\<close> breaks in the loop body.  \<open>ready()\<close> never equals the requested
  status, and the wait raises \<open>ProtocolError\<close> in the first round, not
  \<open>TimeoutExpiredError\<close>.
\<close>

theorem wait_for_status_body_error_counterexample:
  "(\<forall>k. \<not> status_match broken (Some True) k) \<and>
   wait_for_status broken (Some True) 3 fedora =
     Some (Inl ProtocolError, \<lparr>probes = 1, yields = 1, elapsed = 0\<rparr>,
           fedora\<lparr>logged := [WaitForStatus (Some ''vm-fedora'') (Some True),
                              CheckReady (Some ''vm-fedora'')]\<rparr>)"
proof -
  have "\<forall>k. \<not> status_match broken (Some True) k"
    by (simp add: status_match_def broken_def ready_value_def)
  moreover have "wait_for_status broken (Some True) 3 fedora =
     Some (Inl ProtocolError, \<lparr>probes = 1, yields = 1, elapsed = 0\<rparr>,
           fedora\<lparr>logged := [WaitForStatus (Some ''vm-fedora'') (Some True),
                              CheckReady (Some ''vm-fedora'')]\<rparr>)"
    by code_simp
  ultimately show ?thesis by blast
qed

text \<open>
  Claim C8.  \<open>ready()\<close> returns \<open>None\<close> when the fetched instance has no status.  So
  \<open>wait_for_status(status=None)\<close>, the wait of \<open>stop(wait=True)\<close>, returns at the
  first round when the sample has items and the machine has no status; and in any run
  of that wait, a round whose sample has items and whose machine has no status is the
  last round, and the wait has returned normally.
\<close>

theorem absent_status_counts_as_stopped:
  "(status tested = None \<longrightarrow>
      ready (Inr tested) got_value s =
        (Inr None, s\<lparr>logged := logged s @ [CheckReady (name (this s))]\<rparr>)) \<and>
   (list_get w 0 = Inr items \<and> items \<noteq> [] \<and> test_get w 0 = Inr tested \<and> status tested = None \<longrightarrow>
      wait_for_status w None tmo s =
        Some (Inr (), \<lparr>probes = 1, yields = 1, elapsed = vm_cost w 0\<rparr>,
              s\<lparr>logged := logged s @ [WaitForStatus (name (this s)) None,
                                      CheckReady (name (this s))]\<rparr>)) \<and>
   (wait_for_status w None tmo s = Some (res, c, s') \<and> k < probes c \<and>
    list_get w k = Inr items \<and> items \<noteq> [] \<and> test_get w k = Inr tested \<and> status tested = None \<longrightarrow>
      Suc k = probes c \<and> res = Inr ())"
proof (intro conjI impI)
  assume "status tested = None"
  then show "ready (Inr tested) got_value s =
        (Inr None, s\<lparr>logged := logged s @ [CheckReady (name (this s))]\<rparr>)"
    by (simp add: ready_def ready_value_def)
next
  assume a: "list_get w 0 = Inr items \<and> items \<noteq> [] \<and> test_get w 0 = Inr tested \<and>
             status tested = None"
  let ?s = "s\<lparr>logged := logged s @ [WaitForStatus (name (this s)) None]\<rparr>"
  from a have "sampler_step (vm_spec tmo) (status_probe w) (status_body w None) (vm_cost w)
                 fresh_sampler ?s =
               (Stop (Inr ()), \<lparr>probes = 1, yields = 1, elapsed = vm_cost w 0\<rparr>,
                ?s\<lparr>logged := logged ?s @ [CheckReady (name (this ?s))]\<rparr>)"
    unfolding status_step_cases
    by (simp add: Let_def fresh_sampler_def ready_value_def)
  from sampler_loop_Stop [OF this]
  show "wait_for_status w None tmo s =
        Some (Inr (), \<lparr>probes = 1, yields = 1, elapsed = vm_cost w 0\<rparr>,
              s\<lparr>logged := logged s @ [WaitForStatus (name (this s)) None,
                                      CheckReady (name (this s))]\<rparr>)"
    by (simp add: wait_for_status_def sampler_run_def)
next
  assume a: "wait_for_status w None tmo s = Some (res, c, s') \<and> k < probes c \<and>
    list_get w k = Inr items \<and> items \<noteq> [] \<and> test_get w k = Inr tested \<and> status tested = None"
  then have m: "status_match w None k"
    by (simp add: status_match_def ready_value_def)
  from wait_for_status_run [of w None tmo s] a
  have inv: "\<forall>j. Suc j < probes c \<longrightarrow> \<not> status_match w None j"
    "res = Inr () \<longleftrightarrow> status_match w None (probes c - 1)"
    by auto
  from inv(1) m have "\<not> Suc k < probes c" by blast
  with a have last: "Suc k = probes c" by simp
  then have "probes c - 1 = k" by simp
  with inv(2) m last show "Suc k = probes c" and "res = Inr ()" by simp_all
qed

text \<open>The stopping machine again: round 2 finds no status, and the wait returns there.\<close>

theorem absent_status_counts_as_stopped_witness:
  "status \<lparr>status = None :: vm_status option\<rparr> = None \<and>
   ready (Inr \<lparr>status = None\<rparr>) no_status fedora =
     (Inr None, fedora\<lparr>logged := [CheckReady (Some ''vm-fedora'')]\<rparr>) \<and>
   list_get halted 0 = Inr [\<lparr>status = None\<rparr>] \<and> test_get halted 0 = Inr \<lparr>status = None\<rparr> \<and>
   wait_for_status halted None 5 fedora =
     Some (Inr (), \<lparr>probes = 1, yields = 1, elapsed = 0\<rparr>,
           fedora\<lparr>logged := [WaitForStatus (Some ''vm-fedora'') None,
                              CheckReady (Some ''vm-fedora'')]\<rparr>) \<and>
   test_get stopping 2 = Inr \<lparr>status = None\<rparr> \<and>
   list_get stopping 2 = Inr [\<lparr>status = None\<rparr>] \<and>
   wait_for_status stopping None 5 fedora =
     Some (Inr (), \<lparr>probes = 3, yields = 3, elapsed = 2\<rparr>,
           fedora\<lparr>logged := [WaitForStatus (Some ''vm-fedora'') None,
                              CheckReady (Some ''vm-fedora''), CheckReady (Some ''vm-fedora''),
                              CheckReady (Some ''vm-fedora'')]\<rparr>) \<and>
   (2::nat) < probes \<lparr>probes = 3, yields = 3, elapsed = 2\<rparr>"
proof -
  let ?gone = "\<lparr>status = None :: vm_status option\<rparr>"
  let ?c = "\<lparr>probes = 3, yields = 3, elapsed = 2\<rparr>"
  let ?s = "fedora\<lparr>logged := [WaitForStatus (Some ''vm-fedora'') None,
                              CheckReady (Some ''vm-fedora''), CheckReady (Some ''vm-fedora''),
                              CheckReady (Some ''vm-fedora'')]\<rparr>"
  note claim = absent_status_counts_as_stopped
    [of ?gone no_status fedora stopping "[?gone]" 5 "Inr ()" ?c ?s 2]
  have n: "status ?gone = None" by simp
  have f: "name (this fedora) = Some ''vm-fedora''" "logged fedora = []"
    by (simp_all add: fedora_def)
  from claim [THEN conjunct1, THEN mp, OF n] f
  have r: "ready (Inr ?gone) no_status fedora =
             (Inr None, fedora\<lparr>logged := [CheckReady (Some ''vm-fedora'')]\<rparr>)"
    by simp
  have l: "list_get halted 0 = Inr [?gone]" "test_get stopping 2 = Inr ?gone"
    "list_get stopping 2 = Inr [?gone]" "test_get halted 0 = Inr ?gone"
    by (simp_all add: halted_def stopping_def no_status_def)
  have c0: "vm_cost halted 0 = 0" by (simp add: halted_def)
  from absent_status_counts_as_stopped
         [of ?gone no_status fedora halted "[?gone]" 5 "Inr ()" ?c ?s 2,
          THEN conjunct2, THEN conjunct1, THEN mp]
       l(1,4) n f c0
  have first: "wait_for_status halted None 5 fedora =
     Some (Inr (), \<lparr>probes = 1, yields = 1, elapsed = 0\<rparr>,
           fedora\<lparr>logged := [WaitForStatus (Some ''vm-fedora'') None,
                              CheckReady (Some ''vm-fedora'')]\<rparr>)"
    by simp
  have run: "wait_for_status stopping None 5 fedora = Some (Inr (), ?c, ?s)"
    by code_simp
  have k: "(2::nat) < probes ?c" by simp
  from claim [THEN conjunct2, THEN conjunct2, THEN mp] run k l(2,3) n
  have "Suc 2 = probes ?c \<and> Inr () = (Inr () :: error + unit)"
    by blast
  with n r l first run k show ?thesis by blast
qed

section \<open>The rounds of \<open>wait_for_vmi_condition_pause_status\<close>\<close>

lemma condition_accepted_unpause: "condition_accepted False sample"
  by (simp add: condition_accepted_def paused_by_user_def unpaused_def)

lemma condition_accepted_pause:
  "condition_accepted True sample \<longleftrightarrow>
     (\<exists>r. sample ''reason'' = Some r \<and> (r = Some ''PausedByUser'' \<or> \<not> truthy_str r))"
  by (auto simp: condition_accepted_def paused_by_user_def unpaused_def item_def
           split: option.splits)

lemma condition_body_accepted:
  "condition_accepted pause sample \<Longrightarrow> condition_body pause k sample s = (Return (), s)"
  by (auto simp: condition_accepted_def condition_body_def)

lemma condition_body_Return:
  "condition_body pause k sample s = (Return u, s') \<Longrightarrow> condition_accepted pause sample"
  by (auto simp: condition_accepted_def condition_body_def split: sum.splits bool.splits if_splits)

lemma condition_body_state: "snd (condition_body pause k sample s) = s"
  by (auto simp: condition_body_def split: sum.splits bool.splits)

lemma condition_step_Again:
  assumes "sampler_step (vmi_spec tmo) (condition_probe w) (condition_body pause) (vmi_cost w) c s
             = (Again, c1, s1)"
  shows "s1 = s \<and>
         (\<forall>sample. get_vmi_active_condition (condition_get w (probes c)) = Inr sample \<longrightarrow>
                    \<not> condition_accepted pause sample)"
proof (cases "get_vmi_active_condition (condition_get w (probes c))")
  case (Inl e)
  with assms show ?thesis
    by (auto simp: sampler_step_def Let_def condition_probe_def deadline_check_Again
             split: if_splits)
next
  case (Inr sample)
  obtain v s2 where b: "condition_body pause (probes c) sample s = (v, s2)"
    by (cases "condition_body pause (probes c) sample s") auto
  with condition_body_state [of pause "probes c" sample s] have s2: "s2 = s" by simp
  from assms Inr b have "v = Continue" "s1 = s2"
    by (auto simp: sampler_step_def Let_def condition_probe_def deadline_check_Again
             split: ctl.splits)
  with b s2 Inr condition_body_accepted [of pause sample "probes c" s] show ?thesis
    by auto
qed

lemma condition_step_Stop:
  assumes "sampler_step (vmi_spec tmo) (condition_probe w) (condition_body pause) (vmi_cost w) c s
             = (Stop r, c', s')"
  shows "s' = s \<and>
         (\<forall>sample. get_vmi_active_condition (condition_get w (probes c)) = Inr sample \<and>
                    condition_accepted pause sample \<longrightarrow> r = Inr ())"
proof (cases "get_vmi_active_condition (condition_get w (probes c))")
  case (Inl e)
  with assms show ?thesis
    by (auto simp: sampler_step_def Let_def condition_probe_def deadline_check_Stop
             split: if_splits)
next
  case (Inr sample)
  obtain v s2 where b: "condition_body pause (probes c) sample s = (v, s2)"
    by (cases "condition_body pause (probes c) sample s") auto
  with condition_body_state [of pause "probes c" sample s] have s2: "s2 = s" by simp
  from assms Inr b have "s' = s2"
    by (auto simp: sampler_step_def Let_def condition_probe_def deadline_check_Stop
             split: ctl.splits)
  moreover have "r = Inr ()" if "condition_accepted pause sample"
    using condition_body_accepted [OF that, of "probes c" s] assms Inr
    by (simp add: sampler_step_def Let_def condition_probe_def)
  ultimately show ?thesis using s2 Inr by auto
qed

lemma pause_wait_run:
  "\<exists>res c s'. wait_for_vmi_condition_pause_status w pause tmo s = Some (res, c, s') \<and>
     s' = s \<and> 0 < probes c \<and>
     (\<forall>k sample. Suc k < probes c \<and>
          get_vmi_active_condition (condition_get w k) = Inr sample \<longrightarrow>
          \<not> condition_accepted pause sample) \<and>
     (\<forall>sample. get_vmi_active_condition (condition_get w (probes c - 1)) = Inr sample \<and>
          condition_accepted pause sample \<longrightarrow> res = Inr ())"
proof -
  have "\<exists>res. sampler_loop (vmi_spec tmo) (condition_probe w) (condition_body pause) (vmi_cost w)
                 fresh_sampler s = Some res"
    by (rule sampler_loop_terminates) simp
  then obtain r c s' where
    run: "sampler_loop (vmi_spec tmo) (condition_probe w) (condition_body pause) (vmi_cost w)
            fresh_sampler s = Some (r, c, s')"
    by (metis prod_cases3)
  have pf: "probes fresh_sampler = 0" by (simp add: fresh_sampler_def)
  have "probes fresh_sampler < probes c \<and>
        (\<forall>k. probes fresh_sampler \<le> k \<and> Suc k < probes c \<longrightarrow>
             (\<forall>sample. get_vmi_active_condition (condition_get w k) = Inr sample \<longrightarrow>
                        \<not> condition_accepted pause sample)) \<and>
        (\<forall>sample. get_vmi_active_condition (condition_get w (probes c - 1)) = Inr sample \<and>
                   condition_accepted pause sample \<longrightarrow> r = Inr ()) \<and>
        s' = s"
  proof (rule sampler_loop_rounds
      [OF run, where I = "\<lambda>x. x = s"
        and A = "\<lambda>k. \<forall>sample. get_vmi_active_condition (condition_get w k) = Inr sample \<longrightarrow>
                        \<not> condition_accepted pause sample"
        and Z = "\<lambda>k r c. \<forall>sample. get_vmi_active_condition (condition_get w k) = Inr sample \<and>
                   condition_accepted pause sample \<longrightarrow> r = Inr ()"])
    show "s = s" by simp
  next
    fix c s0 c1 s1
    assume st: "sampler_step (vmi_spec tmo) (condition_probe w) (condition_body pause) (vmi_cost w)
                  c s0 = (Again, c1, s1)" and s0: "s0 = s"
    from condition_step_Again [OF st] s0
    show "(\<forall>sample. get_vmi_active_condition (condition_get w (probes c)) = Inr sample \<longrightarrow>
                     \<not> condition_accepted pause sample) \<and> s1 = s"
      by blast
  next
    fix c s0 r c' s'
    assume st: "sampler_step (vmi_spec tmo) (condition_probe w) (condition_body pause) (vmi_cost w)
                  c s0 = (Stop r, c', s')" and s0: "s0 = s"
    from condition_step_Stop [OF st] s0
    show "(\<forall>sample. get_vmi_active_condition (condition_get w (probes c)) = Inr sample \<and>
                     condition_accepted pause sample \<longrightarrow> r = Inr ()) \<and> s' = s"
      by blast
  qed
  then have all: "0 < probes c \<and>
        (\<forall>k sample. Suc k < probes c \<and>
             get_vmi_active_condition (condition_get w k) = Inr sample \<longrightarrow>
             \<not> condition_accepted pause sample) \<and>
        (\<forall>sample. get_vmi_active_condition (condition_get w (probes c - 1)) = Inr sample \<and>
                   condition_accepted pause sample \<longrightarrow> r = Inr ()) \<and>
        s' = s"
    unfolding pf using zero_le by blast
  from run have "wait_for_vmi_condition_pause_status w pause tmo s = Some (r, c, s')"
    by (simp add: wait_for_vmi_condition_pause_status_def sampler_run_def)
  with all show ?thesis by blast
qed

section \<open>Results on \<open>VirtualMachineInstance\<close>\<close>

text \<open>
  The samples \<open>wait_for_vmi_condition_pause_status\<close> returns on.  The wait always
  ends.  With \<open>pause=False\<close> the loop body returns on every sample, whatever its
  \<open>reason\<close>, so the wait returns on the first active condition it samples.  With
  \<open>pause=True\<close> the body returns on a sample that carries a \<open>reason\<close> key whose
  value is \<open>PausedByUser\<close> or is falsy, so the wait returns on the first such sample.
\<close>

lemma pause_wait_returns_on:
  "condition_body False k sample s = (Return (), s) \<and>
   (sample ''reason'' = Some r \<and> (r = Some ''PausedByUser'' \<or> \<not> truthy_str r) \<longrightarrow>
      condition_body True k sample s = (Return (), s)) \<and>
   (\<exists>res c s'. wait_for_vmi_condition_pause_status w pause tmo s = Some (res, c, s')) \<and>
   (wait_for_vmi_condition_pause_status w pause tmo s = Some (res, c, s') \<and> j < probes c \<and>
    get_vmi_active_condition (condition_get w j) = Inr sample' \<and>
    (\<not> pause \<or> (\<exists>r. sample' ''reason'' = Some r \<and> (r = Some ''PausedByUser'' \<or> \<not> truthy_str r))) \<longrightarrow>
      Suc j = probes c \<and> res = Inr () \<and> s' = s)"
proof (intro conjI impI)
  show "condition_body False k sample s = (Return (), s)"
    by (rule condition_body_accepted) (rule condition_accepted_unpause)
next
  assume "sample ''reason'' = Some r \<and> (r = Some ''PausedByUser'' \<or> \<not> truthy_str r)"
  then have "condition_accepted True sample"
    unfolding condition_accepted_pause by blast
  then show "condition_body True k sample s = (Return (), s)"
    by (rule condition_body_accepted)
next
  from pause_wait_run [of w pause tmo s]
  show "\<exists>res c s'. wait_for_vmi_condition_pause_status w pause tmo s = Some (res, c, s')"
    by blast
next
  assume a: "wait_for_vmi_condition_pause_status w pause tmo s = Some (res, c, s') \<and> j < probes c \<and>
    get_vmi_active_condition (condition_get w j) = Inr sample' \<and>
    (\<not> pause \<or> (\<exists>r. sample' ''reason'' = Some r \<and> (r = Some ''PausedByUser'' \<or> \<not> truthy_str r)))"
  then have acc: "condition_accepted pause sample'"
    using condition_accepted_unpause [of sample'] condition_accepted_pause [of sample']
    by (cases pause) auto
  from pause_wait_run [of w pause tmo s] a
  have inv: "s' = s"
    "\<forall>k sample. Suc k < probes c \<and>
          get_vmi_active_condition (condition_get w k) = Inr sample \<longrightarrow>
          \<not> condition_accepted pause sample"
    "\<forall>sample. get_vmi_active_condition (condition_get w (probes c - 1)) = Inr sample \<and>
          condition_accepted pause sample \<longrightarrow> res = Inr ()"
    by auto
  from inv(2) a acc have "\<not> Suc j < probes c" by blast
  with a have last: "Suc j = probes c" by simp
  then have "probes c - 1 = j" by simp
  with inv(3) a acc have "res = Inr ()" by simp
  with last inv(1) show "Suc j = probes c" and "res = Inr ()" and "s' = s" by simp_all
qed

text \<open>
  After one broken request, a paused instance is sampled: the wait for the pause returns
  at that sample.  An instance whose active condition has a \<open>null\<close> reason makes the
  same wait return as well.
\<close>

lemma pause_wait_returns_on_example:
  "condition_body False 1 (paused_conditions ! 1) fedora_vmi = (Return (), fedora_vmi) \<and>
   (paused_conditions ! 1) ''reason'' = Some (Some ''PausedByUser'') \<and>
   condition_body True 1 (paused_conditions ! 1) fedora_vmi = (Return (), fedora_vmi) \<and>
   wait_for_vmi_condition_pause_status (vmi_cluster paused_conditions) True 5 fedora_vmi =
     Some (Inr (), \<lparr>probes = 2, yields = 1, elapsed = 1\<rparr>, fedora_vmi) \<and>
   (1::nat) < probes \<lparr>probes = 2, yields = 1, elapsed = 1\<rparr> \<and>
   get_vmi_active_condition (condition_get (vmi_cluster paused_conditions) 1) =
     Inr (paused_conditions ! 1) \<and>
   (null_reason_conditions ! 0) ''reason'' = Some None \<and> \<not> truthy_str None \<and>
   get_vmi_active_condition (condition_get (vmi_cluster null_reason_conditions) 1) =
     Inr (null_reason_conditions ! 0) \<and>
   wait_for_vmi_condition_pause_status (vmi_cluster null_reason_conditions) True 5 fedora_vmi =
     Some (Inr (), \<lparr>probes = 2, yields = 1, elapsed = 1\<rparr>, fedora_vmi) \<and>
   get_vmi_active_condition (condition_get (vmi_cluster running_conditions) 1) =
     Inr (running_conditions ! 1) \<and>
   wait_for_vmi_condition_pause_status (vmi_cluster running_conditions) False 5 fedora_vmi =
     Some (Inr (), \<lparr>probes = 2, yields = 1, elapsed = 1\<rparr>, fedora_vmi)"
proof -
  let ?c = "\<lparr>probes = 2, yields = 1, elapsed = 1\<rparr>"
  note claim'' = pause_wait_returns_on
    [of 1 "running_conditions ! 1" fedora_vmi None
        "vmi_cluster running_conditions" False 5 "Inr ()" ?c fedora_vmi 1
        "running_conditions ! 1"]
  have g'': "get_vmi_active_condition (condition_get (vmi_cluster running_conditions) 1) =
             Inr (running_conditions ! 1)"
    by (simp add: get_vmi_active_condition_def status_attr_def vmi_cluster_def vmi_answer_def
                  running_conditions_def item_def)
  have run'': "wait_for_vmi_condition_pause_status (vmi_cluster running_conditions) False 5
                fedora_vmi = Some (Inr (), ?c, fedora_vmi)"
    by code_simp
  note claim = pause_wait_returns_on
    [of 1 "paused_conditions ! 1" fedora_vmi "Some ''PausedByUser''"
        "vmi_cluster paused_conditions" True 5 "Inr ()" ?c fedora_vmi 1 "paused_conditions ! 1"]
  note claim' = pause_wait_returns_on
    [of 1 "null_reason_conditions ! 0" fedora_vmi None
        "vmi_cluster null_reason_conditions" True 5 "Inr ()" ?c fedora_vmi 1
        "null_reason_conditions ! 0"]
  have r: "(paused_conditions ! 1) ''reason'' = Some (Some ''PausedByUser'')"
    by (simp add: paused_conditions_def)
  have n: "(null_reason_conditions ! 0) ''reason'' = Some None"
    by (simp add: null_reason_conditions_def)
  have g: "get_vmi_active_condition (condition_get (vmi_cluster paused_conditions) 1) =
             Inr (paused_conditions ! 1)"
    by (simp add: get_vmi_active_condition_def status_attr_def vmi_cluster_def vmi_answer_def
                  paused_conditions_def item_def)
  have g': "get_vmi_active_condition (condition_get (vmi_cluster null_reason_conditions) 1) =
             Inr (null_reason_conditions ! 0)"
    by (simp add: get_vmi_active_condition_def status_attr_def vmi_cluster_def vmi_answer_def
                  null_reason_conditions_def item_def)
  have run: "wait_for_vmi_condition_pause_status (vmi_cluster paused_conditions) True 5 fedora_vmi =
               Some (Inr (), ?c, fedora_vmi)"
    by code_simp
  have run': "wait_for_vmi_condition_pause_status (vmi_cluster null_reason_conditions) True 5
                fedora_vmi = Some (Inr (), ?c, fedora_vmi)"
    by code_simp
  have k: "(1::nat) < probes ?c" by simp
  from claim [THEN conjunct2, THEN conjunct1, THEN mp] r
  have b: "condition_body True 1 (paused_conditions ! 1) fedora_vmi = (Return (), fedora_vmi)"
    by blast
  from claim [THEN conjunct2, THEN conjunct2, THEN conjunct2, THEN mp] run k g r
  have "Suc 1 = probes ?c" by blast
  from claim' [THEN conjunct2, THEN conjunct2, THEN conjunct2, THEN mp] run' k g' n
  have "Suc 1 = probes ?c" by auto
  from claim'' [THEN conjunct2, THEN conjunct2, THEN conjunct2, THEN mp] run'' k g''
  have "Suc 1 = probes ?c" by auto
  from claim [THEN conjunct1] r b run k g n g' run' g'' run'' show ?thesis by simp
qed

text \<open>
  Claim C1 says that with \<open>pause=True\<close> the wait returns on a sample that has no
  reason.  The code does not: the first test of the loop body subscripts the sample,
  \<open>sample["reason"]\<close>, where the second test reads it with \<open>sample.get("reason")\<close>.
  The active condition of a running instance has no \<open>reason\<close> key; on that sample
  the first test raises \<open>KeyError\<close> before the second one is reached, and the wait
  raises instead of returning.
\<close>

theorem pause_wait_missing_reason_raises:
  "get_vmi_active_condition (condition_get (vmi_cluster running_conditions) 1) =
     Inr (running_conditions ! 1) \<and>
   (running_conditions ! 1) ''reason'' = None \<and>
   condition_body True 1 (running_conditions ! 1) fedora_vmi = (Raise KeyError, fedora_vmi) \<and>
   wait_for_vmi_condition_pause_status (vmi_cluster running_conditions) True 5 fedora_vmi =
     Some (Inl KeyError, \<lparr>probes = 2, yields = 1, elapsed = 1\<rparr>, fedora_vmi)"
proof -
  have g: "get_vmi_active_condition (condition_get (vmi_cluster running_conditions) 1) =
             Inr (running_conditions ! 1)"
    by (simp add: get_vmi_active_condition_def status_attr_def vmi_cluster_def vmi_answer_def
                  running_conditions_def item_def)
  have r: "(running_conditions ! 1) ''reason'' = None"
    by (simp add: running_conditions_def)
  have b: "condition_body True 1 (running_conditions ! 1) fedora_vmi = (Raise KeyError, fedora_vmi)"
    by (simp add: condition_body_def paused_by_user_def running_conditions_def)
  have w: "wait_for_vmi_condition_pause_status (vmi_cluster running_conditions) True 5 fedora_vmi =
     Some (Inl KeyError, \<lparr>probes = 2, yields = 1, elapsed = 1\<rparr>, fedora_vmi)"
    by code_simp
  from g r b w show ?thesis by blast
qed

text \<open>
  Claim C9.  \<open>virt_launcher_pod\<close> raises \<open>ResourceNotFoundError\<close> exactly when the
  migration state is set and no listed pod has the name of its target pod; with a
  migration state and a pod of that name it returns the first such pod.  Without a
  migration state it returns the first listed pod, and on an empty list that is an
  \<open>IndexError\<close>.
\<close>

theorem virt_launcher_pod_errors:
  "(virt_launcher_pod pods migration_state' = Inl ResourceNotFoundError \<longleftrightarrow>
      (\<exists>ms. migration_state' = Some ms \<and> (\<forall>pod \<in> set pods. targetPod ms \<noteq> name pod))) \<and>
   (find (\<lambda>pod. targetPod ms = name pod) pods = Some pod \<longrightarrow>
      virt_launcher_pod pods (Some ms) = Inr pod) \<and>
   virt_launcher_pod (pod # pods) None = Inr pod \<and>
   virt_launcher_pod [] None = Inl IndexError"
proof (intro conjI impI)
  show "virt_launcher_pod pods migration_state' = Inl ResourceNotFoundError \<longleftrightarrow>
      (\<exists>ms. migration_state' = Some ms \<and> (\<forall>pod \<in> set pods. targetPod ms \<noteq> name pod))"
  proof (cases migration_state')
    case None
    then show ?thesis
      by (simp add: virt_launcher_pod_def split: list.splits)
  next
    case (Some ms)
    have "virt_launcher_pod pods (Some ms) = Inl ResourceNotFoundError \<longleftrightarrow>
            find (\<lambda>pod. targetPod ms = name pod) pods = None"
      by (simp add: virt_launcher_pod_def split: option.splits)
    with Some show ?thesis
      by (auto simp: find_None_iff)
  qed
qed (simp_all add: virt_launcher_pod_def)

text \<open>
  After a migration there are two launcher pods, and the one named as target is
  returned; when the target pod is not listed the error is \<open>ResourceNotFoundError\<close>;
  with no migration state and no pod the error is \<open>IndexError\<close>.
\<close>

theorem virt_launcher_pod_errors_witness:
  "virt_launcher_pod
     [\<lparr>name = Some ''virt-launcher-a'', namespace = Some ''default''\<rparr>,
      \<lparr>name = Some ''virt-launcher-b'', namespace = Some ''default''\<rparr>]
     (Some \<lparr>targetPod = Some ''virt-launcher-c''\<rparr>) = Inl ResourceNotFoundError \<and>
   find (\<lambda>pod. targetPod \<lparr>targetPod = Some ''virt-launcher-b''\<rparr> = name pod)
     [\<lparr>name = Some ''virt-launcher-a'', namespace = Some ''default''\<rparr>,
      \<lparr>name = Some ''virt-launcher-b'', namespace = Some ''default''\<rparr>]
     = Some \<lparr>name = Some ''virt-launcher-b'', namespace = Some ''default''\<rparr> \<and>
   virt_launcher_pod
     [\<lparr>name = Some ''virt-launcher-a'', namespace = Some ''default''\<rparr>,
      \<lparr>name = Some ''virt-launcher-b'', namespace = Some ''default''\<rparr>]
     (Some \<lparr>targetPod = Some ''virt-launcher-b''\<rparr>)
     = Inr \<lparr>name = Some ''virt-launcher-b'', namespace = Some ''default''\<rparr> \<and>
   virt_launcher_pod [] None = Inl IndexError"
proof -
  let ?a = "\<lparr>name = Some ''virt-launcher-a'', namespace = Some ''default''\<rparr>"
  let ?b = "\<lparr>name = Some ''virt-launcher-b'', namespace = Some ''default''\<rparr>"
  note claim = virt_launcher_pod_errors
    [of "[?a, ?b]" "Some \<lparr>targetPod = Some ''virt-launcher-c''\<rparr>"
        "\<lparr>targetPod = Some ''virt-launcher-b''\<rparr>" ?b]
  have none: "\<forall>pod \<in> set [?a, ?b]. targetPod \<lparr>targetPod = Some ''virt-launcher-c''\<rparr> \<noteq> name pod"
    by simp
  from claim [THEN conjunct1] none
  have nf: "virt_launcher_pod [?a, ?b] (Some \<lparr>targetPod = Some ''virt-launcher-c''\<rparr>)
              = Inl ResourceNotFoundError"
    by blast
  have f: "find (\<lambda>pod. targetPod \<lparr>targetPod = Some ''virt-launcher-b''\<rparr> = name pod) [?a, ?b]
             = Some ?b"
    by simp
  from claim [THEN conjunct2, THEN conjunct1, THEN mp, OF f]
  have found: "virt_launcher_pod [?a, ?b] (Some \<lparr>targetPod = Some ''virt-launcher-b''\<rparr>) = Inr ?b" .
  from claim [THEN conjunct2, THEN conjunct2, THEN conjunct2] nf f found
  show ?thesis by blast
qed

text \<open>
  Claim C10.  On every list of interfaces and every interface name,
  \<open>interface_ip\<close> returns, without raising, the \<open>ipAddress\<close> of the first listed
  interface whose \<open>interfaceName\<close> equals the name, and \<open>None\<close> when there is none.
\<close>

theorem interface_ip_first_match:
  "interface_ip (Some ifaces) interface =
     Inr (case find (\<lambda>iface. item iface ''interfaceName'' = interface) ifaces of
            None \<Rightarrow> None
          | Some iface \<Rightarrow> item iface ''ipAddress'')"
proof -
  have "(case [item iface ''ipAddress''.
                 iface \<leftarrow> ifaces, item iface ''interfaceName'' = interface] of
           [] \<Rightarrow> None | ip # _ \<Rightarrow> ip) =
        (case find (\<lambda>iface. item iface ''interfaceName'' = interface) ifaces of
           None \<Rightarrow> None
         | Some iface \<Rightarrow> item iface ''ipAddress'')"
    by (induction ifaces) simp_all
  then show ?thesis by (simp add: interface_ip_def)
qed

text \<open>Two interfaces: the second is found by name, and an unknown name gives \<open>None\<close>.\<close>

theorem interface_ip_first_match_witness:
  "interface_ip
     (Some [[''interfaceName'' \<mapsto> Some ''eth0'', ''ipAddress'' \<mapsto> Some ''10.0.2.2''],
            [''interfaceName'' \<mapsto> Some ''eth1'', ''ipAddress'' \<mapsto> Some ''192.168.0.7'']])
     (Some ''eth1'') = Inr (Some ''192.168.0.7'') \<and>
   interface_ip
     (Some [[''interfaceName'' \<mapsto> Some ''eth0'', ''ipAddress'' \<mapsto> Some ''10.0.2.2'']])
     (Some ''eth7'') = Inr None"
  using interface_ip_first_match
          [of "[[''interfaceName'' \<mapsto> Some ''eth0'', ''ipAddress'' \<mapsto> Some ''10.0.2.2''],
                [''interfaceName'' \<mapsto> Some ''eth1'', ''ipAddress'' \<mapsto> Some ''192.168.0.7'']]"
              "Some ''eth1''"]
        interface_ip_first_match
          [of "[[''interfaceName'' \<mapsto> Some ''eth0'', ''ipAddress'' \<mapsto> Some ''10.0.2.2'']]"
              "Some ''eth7''"]
  by (simp add: item_def)

section \<open>What a wait leaves behind\<close>

lemma replicas_step_oblivious:
  assumes "sampler_step (ms_spec retry tmo sleep) (replicas_probe w) (replicas_body w) (ms_cost w) c s
             = (v, c1, s1)"
  shows "s1 = s \<and>
         sampler_step (ms_spec retry tmo sleep) (replicas_probe w) (replicas_body w) (ms_cost w) c t
           = (v, c1, t)"
  using assms unfolding replicas_step_cases
  by (auto simp: deadline_check_def Let_def split: sum.splits if_splits)

lemma status_step_oblivious:
  assumes "sampler_step (vm_spec tmo) (status_probe w) (status_body w status') (vm_cost w) c s
             = (v, c1, s1)"
  shows "\<exists>t1. sampler_step (vm_spec tmo) (status_probe w) (status_body w status') (vm_cost w) c t
           = (v, c1, t1)"
  using assms unfolding status_step_cases
  by (auto simp: deadline_check_def Let_def split: sum.splits if_splits)

text \<open>
  Claim C7.  A wait leaves every field of the wrapper object as it was (name, namespace,
  replicas, cluster_name, machine_role, machine_type and provider_spec are the fields of
  \<open>this\<close>), and its sampler is built afresh: started from any other state, for instance
  the one an earlier wait has left, the same wait takes the same samples and has the
  same result.
\<close>

theorem waits_keep_object_and_own_sampler:
  "(wait_for_replicas retry w tmo sleep s = Some (res, c, s') \<longrightarrow>
      this s' = this s \<and>
      (\<forall>t. \<exists>t'. wait_for_replicas retry w tmo sleep t = Some (res, c, t') \<and> this t' = this t)) \<and>
   (wait_for_status vw status' tmo' v = Some (res', c', v') \<longrightarrow>
      this v' = this v \<and>
      (\<forall>t. \<exists>t'. wait_for_status vw status' tmo' t = Some (res', c', t') \<and> this t' = this t))"
proof (intro conjI impI allI)
  assume run: "wait_for_replicas retry w tmo sleep s = Some (res, c, s')"
  from wait_for_replicas_run(5) [OF run] show "this s' = this s" .
next
  fix t :: "machine_set pystate"
  assume run: "wait_for_replicas retry w tmo sleep s = Some (res, c, s')"
  then obtain r s1 where
    loop: "sampler_loop (ms_spec retry tmo sleep) (replicas_probe w) (replicas_body w) (ms_cost w)
             fresh_sampler s = Some (r, c, s1)"
    and res: "(res, c, s') = (if r = Inl TimeoutExpiredError then replicas_timed_out w c s1
                              else (r, c, s1))"
    by (auto simp: wait_for_replicas_def sampler_run_def replicas_timed_out_def
             split: option.splits if_splits sum.splits)
  from sampler_loop_oblivious [OF loop, of t] replicas_step_oblivious
  obtain t1 where
    loop': "sampler_loop (ms_spec retry tmo sleep) (replicas_probe w) (replicas_body w) (ms_cost w)
              fresh_sampler t = Some (r, c, t1)"
    by blast
  from replicas_loop_run [OF loop'] have t1: "t1 = t" by blast
  have "\<exists>t'. (if r = Inl TimeoutExpiredError then replicas_timed_out w c t
              else (r, c, t)) = (res, c, t') \<and> this t' = this t"
    using res by (auto simp: replicas_timed_out_def split: sum.splits if_splits)
  with loop' t1
  show "\<exists>t'. wait_for_replicas retry w tmo sleep t = Some (res, c, t') \<and> this t' = this t"
    by (auto simp: wait_for_replicas_def sampler_run_def)
next
  assume run: "wait_for_status vw status' tmo' v = Some (res', c', v')"
  with wait_for_status_run [of vw status' tmo' v] show "this v' = this v" by auto
next
  fix t :: "resource pystate"
  assume run: "wait_for_status vw status' tmo' v = Some (res', c', v')"
  let ?v = "v\<lparr>logged := logged v @ [WaitForStatus (name (this v)) status']\<rparr>"
  let ?t = "t\<lparr>logged := logged t @ [WaitForStatus (name (this t)) status']\<rparr>"
  from run have
    loop: "sampler_loop (vm_spec tmo') (status_probe vw) (status_body vw status') (vm_cost vw)
             fresh_sampler ?v = Some (res', c', v')"
    by (simp add: wait_for_status_def sampler_run_def)
  from sampler_loop_oblivious [OF loop, of ?t] status_step_oblivious
  obtain t' where "sampler_loop (vm_spec tmo') (status_probe vw) (status_body vw status')
                     (vm_cost vw) fresh_sampler ?t = Some (res', c', t')"
    by blast
  then have w: "wait_for_status vw status' tmo' t = Some (res', c', t')"
    by (simp add: wait_for_status_def sampler_run_def)
  with wait_for_status_run [of vw status' tmo' t] have "this t' = this t" by auto
  with w show "\<exists>t'. wait_for_status vw status' tmo' t = Some (res', c', t') \<and> this t' = this t"
    by blast
qed

text \<open>
  Two waits in a row on the stuck machine set, and two on the stopping machine: the
  second wait of each pair starts in the state the first has left, takes the same
  samples and has the same result; the objects are unchanged, only the log has grown.
\<close>

theorem waits_keep_object_and_own_sampler_witness:
  "wait_for_replicas UNIV (stuck (ms_answer (Some 1) (Some 2))) 2 1 workers =
     Some (Inr False, \<lparr>probes = 3, yields = 3, elapsed = 2\<rparr>,
           workers\<lparr>logged := [ReplicasNotReady (Some ''workers'') (Some 1) (Some 2)]\<rparr>) \<and>
   this (workers\<lparr>logged := [ReplicasNotReady (Some ''workers'') (Some 1) (Some 2)]\<rparr>) =
     this workers \<and>
   wait_for_replicas UNIV (stuck (ms_answer (Some 1) (Some 2))) 2 1
       (workers\<lparr>logged := [ReplicasNotReady (Some ''workers'') (Some 1) (Some 2)]\<rparr>) =
     Some (Inr False, \<lparr>probes = 3, yields = 3, elapsed = 2\<rparr>,
           workers\<lparr>logged := [ReplicasNotReady (Some ''workers'') (Some 1) (Some 2),
                               ReplicasNotReady (Some ''workers'') (Some 1) (Some 2)]\<rparr>) \<and>
   wait_for_status halted None 5 fedora =
     Some (Inr (), \<lparr>probes = 1, yields = 1, elapsed = 0\<rparr>,
           fedora\<lparr>logged := [WaitForStatus (Some ''vm-fedora'') None,
                              CheckReady (Some ''vm-fedora'')]\<rparr>) \<and>
   this (fedora\<lparr>logged := [WaitForStatus (Some ''vm-fedora'') None,
                            CheckReady (Some ''vm-fedora'')]\<rparr>) = this fedora \<and>
   wait_for_status halted None 5
       (fedora\<lparr>logged := [WaitForStatus (Some ''vm-fedora'') None,
                          CheckReady (Some ''vm-fedora'')]\<rparr>) =
     Some (Inr (), \<lparr>probes = 1, yields = 1, elapsed = 0\<rparr>,
           fedora\<lparr>logged := [WaitForStatus (Some ''vm-fedora'') None,
                              CheckReady (Some ''vm-fedora''),
                              WaitForStatus (Some ''vm-fedora'') None,
                              CheckReady (Some ''vm-fedora'')]\<rparr>)"
proof -
  let ?w = "stuck (ms_answer (Some 1) (Some 2))"
  let ?c = "\<lparr>probes = 3, yields = 3, elapsed = 2\<rparr>"
  let ?s1 = "workers\<lparr>logged := [ReplicasNotReady (Some ''workers'') (Some 1) (Some 2)]\<rparr>"
  let ?d = "\<lparr>probes = 1, yields = 1, elapsed = 0\<rparr>"
  let ?v1 = "fedora\<lparr>logged := [WaitForStatus (Some ''vm-fedora'') None,
                              CheckReady (Some ''vm-fedora'')]\<rparr>"
  note claim = waits_keep_object_and_own_sampler
    [of UNIV ?w 2 1 workers "Inr False" ?c ?s1 halted None 5 fedora "Inr ()" ?d ?v1]
  have run1: "wait_for_replicas UNIV ?w 2 1 workers = Some (Inr False, ?c, ?s1)"
    by code_simp
  have run2: "wait_for_replicas UNIV ?w 2 1 ?s1 =
     Some (Inr False, ?c,
           workers\<lparr>logged := [ReplicasNotReady (Some ''workers'') (Some 1) (Some 2),
                               ReplicasNotReady (Some ''workers'') (Some 1) (Some 2)]\<rparr>)"
    by code_simp
  have vrun1: "wait_for_status halted None 5 fedora = Some (Inr (), ?d, ?v1)"
    by code_simp
  have vrun2: "wait_for_status halted None 5 ?v1 =
     Some (Inr (), ?d,
           fedora\<lparr>logged := [WaitForStatus (Some ''vm-fedora'') None,
                              CheckReady (Some ''vm-fedora''),
                              WaitForStatus (Some ''vm-fedora'') None,
                              CheckReady (Some ''vm-fedora'')]\<rparr>)"
    by code_simp
  from claim [THEN conjunct1, THEN mp, OF run1] have f1: "this ?s1 = this workers"
    by (rule conjunct1)
  from claim [THEN conjunct2, THEN mp, OF vrun1] have f2: "this ?v1 = this fedora"
    by (rule conjunct1)
  from run1 f1 run2 vrun1 f2 vrun2 show ?thesis by blast
qed

end
